theory Spec2Isabelle
  imports Main "HOL-Library.AList"
begin

section \<open>JavaScript values that cross the wire\<close>

text \<open>
  Frames travel as JSON text. The model keeps the JSON document itself rather than its
  characters: \<open>JSON.parse\<close> yields a \<open>json\<close> value or throws, \<open>JSON.stringify\<close> of an
  object literal yields the document that holds the properties whose value is not
  \<open>undefined\<close>. Numbers are integers here (no fractions, no NaN); the order of an object's
  properties is not significant.
\<close>

datatype json =
    JNull
  | JBool bool
  | JNum int
  | JStr string
  | JArr "json list"
  | JObj "(string \<times> json) list"

text \<open>JavaScript truthiness; \<open>None\<close> is \<open>undefined\<close>.\<close>

fun truthy :: "json option \<Rightarrow> bool" where
  "truthy None = False"
| "truthy (Some JNull) = False"
| "truthy (Some (JBool b)) = b"
| "truthy (Some (JNum n)) = (n \<noteq> 0)"
| "truthy (Some (JStr s)) = (s \<noteq> [])"
| "truthy (Some (JArr xs)) = True"
| "truthy (Some (JObj kvs)) = True"

fun digit_char :: "nat \<Rightarrow> char" where
  "digit_char n = ''0123456789'' ! (n mod 10)"

fun index_key :: "nat \<Rightarrow> string" where
  "index_key n = (if n < 10 then [digit_char n] else index_key (n div 10) @ [digit_char (n mod 10)])"

text \<open>The own enumerable properties of a value, as an object spread \<open>{...v}\<close> copies them.\<close>

fun own_props :: "json \<Rightarrow> (string \<times> json) list" where
  "own_props (JObj kvs) = kvs"
| "own_props (JArr xs) = zip (map index_key [0..<length xs]) xs"
| "own_props (JStr cs) = zip (map index_key [0..<length cs]) (map (\<lambda>c. JStr [c]) cs)"
| "own_props v = []"

text \<open>
  Reading property \<open>k\<close> of a value that is neither \<open>null\<close> nor \<open>undefined\<close>; \<open>None\<close> is
  \<open>undefined\<close>. (Reading a property of \<open>null\<close> throws; the callers test for it first.)
\<close>

fun get_prop :: "json \<Rightarrow> string \<Rightarrow> json option" where
  "get_prop (JArr xs) k =
     (if k = ''length'' then Some (JNum (int (length xs))) else map_of (own_props (JArr xs)) k)"
| "get_prop (JStr cs) k =
     (if k = ''length'' then Some (JNum (int (length cs))) else map_of (own_props (JStr cs)) k)"
| "get_prop v k = map_of (own_props v) k"

text \<open>
  \<open>{...a, ...b}\<close>: the properties of \<open>a\<close>, overwritten and extended by those of \<open>b\<close>. An
  object is read through \<open>map_of\<close>: the first pair with a given name is the property.
\<close>

definition spread2 :: "(string \<times> json) list \<Rightarrow> (string \<times> json) list \<Rightarrow> (string \<times> json) list" where
  "spread2 a b = AList.merge a b"

text \<open>\<open>JSON.stringify\<close> of an object literal: a property whose value is \<open>undefined\<close> is left out.\<close>

definition JSON_stringify :: "(string \<times> json option) list \<Rightarrow> json" where
  "JSON_stringify fields = JObj (List.map_filter (\<lambda>(k, v). map_option (Pair k) v) fields)"

text \<open>The outcome of \<open>JSON.parse(event.data)\<close>.\<close>

datatype parse_result = SyntaxError | Parsed json

text \<open>\<open>Date.now()\<close> and \<open>new Date().toISOString()\<close> at the moment a handler runs.\<close>

record clock =
  now_ms :: int
  now_iso :: string

section \<open>The hook \<open>useStatsWebSocket\<close> (apps/web/lib/websocket.ts)\<close>

datatype ConnectionStatus = Connecting | Connected | Disconnected | Error

datatype ReadyState = CONNECTING | OPEN | CLOSING | CLOSED

text \<open>
  A browser \<open>WebSocket\<close>: its ready state, whether each of the four handler slots holds a
  handler (\<open>False\<close> is \<open>null\<close>), and the frames passed to \<open>send\<close>, oldest first.
  Sockets live in a store and are named by their index; \<open>wsRef\<close> holds such an index.
\<close>

record WebSocket =
  readyState :: ReadyState
  onopen :: bool
  onmessage :: bool
  onclose :: bool
  onerror :: bool
  sent :: "json list"

text \<open>
  Timers made by \<open>setTimeout\<close> and \<open>setInterval\<close>, named by their index in a store.
  The reconnect timeout calls \<open>connect()\<close>; the ping interval captures its socket.
\<close>

datatype timer_kind = ReconnectTimeout nat | PingInterval nat nat

record env_timer =
  kind :: timer_kind
  active :: bool

text \<open>
  Modelled from the spec: \<open>TimeRange\<close> is declared in \<open>@/lib/api\<close>, which is not among the
  sources; the hook reads its two bounds \<open>start\<close> and \<open>end\<close> only.
\<close>

record TimeRange =
  range_start :: string
  range_end :: string

text \<open>
  \<open>UseStatsWebSocketOptions\<close>. Every field is optional; \<open>None\<close> is \<open>undefined\<close>.
  A callback is named by a tag, so that the log of calls tells which function ran.
\<close>

record UseStatsWebSocketOptions =
  backendId :: "int option"
  range :: "TimeRange option"
  minPushIntervalMs :: "int option"
  includeTrend :: "bool option"
  trendMinutes :: "int option"
  trendBucketMinutes :: "int option"
  includeDeviceDetails :: "bool option"
  deviceSourceIP :: "string option"
  deviceDetailLimit :: "int option"
  includeProxyDetails :: "bool option"
  proxyChain :: "string option"
  proxyDetailLimit :: "int option"
  includeRuleDetails :: "bool option"
  ruleName :: "string option"
  ruleDetailLimit :: "int option"
  includeRuleChainFlow :: "bool option"
  includeDomainsPage :: "bool option"
  domainsPageOffset :: "int option"
  domainsPageLimit :: "int option"
  domainsPageSortBy :: "string option"
  domainsPageSortOrder :: "string option"
  domainsPageSearch :: "string option"
  includeIPsPage :: "bool option"
  ipsPageOffset :: "int option"
  ipsPageLimit :: "int option"
  ipsPageSortBy :: "string option"
  ipsPageSortOrder :: "string option"
  ipsPageSearch :: "string option"
  trackLastMessage :: "bool option"
  enabled :: "bool option"
  onMessage :: "nat option"
  onConnect :: "nat option"
  onDisconnect :: "nat option"
  onError :: "nat option"

datatype callback_call =
    CallOnMessage nat json
  | CallOnConnect nat
  | CallOnDisconnect nat
  | CallOnError nat

datatype console_entry =
    LogConnecting
  | LogConnected
  | LogDisconnected
  | LogReconnecting nat nat
  | LogSubscribing int
  | ErrParse
  | ErrConnection
  | ErrCreate

text \<open>
  The state of one mounted hook: the three React state variables, the refs, the
  stores of the sockets and timers the hook has created, the calls made to the consumer's
  callbacks and to the console (both oldest first), and what React remembers between
  renders (the options of the last render and the dependency values of the two effects).
\<close>

type_synonym subscribe_deps = "UseStatsWebSocketOptions \<times> ConnectionStatus"

record hook_state =
  status :: ConnectionStatus
  lastMessage :: "json option"
  latency :: "int option"
  wsRef :: "nat option"
  reconnectTimerRef :: "nat option"
  pingIntervalRef :: "nat option"
  lastPingTimeRef :: int
  reconnectAttemptsRef :: nat
  onMessageRef :: "nat option"
  onConnectRef :: "nat option"
  onDisconnectRef :: "nat option"
  onErrorRef :: "nat option"
  trackLastMessageRef :: bool
  sockets :: "WebSocket list"
  timers :: "env_timer list"
  calls :: "callback_call list"
  console :: "console_entry list"
  props :: UseStatsWebSocketOptions
  subscribeDeps :: "subscribe_deps option"
  enabledDeps :: "bool option"

definition maxReconnectDelayMs :: nat where
  "maxReconnectDelayMs = 30000"

definition modify_at :: "nat \<Rightarrow> ('a \<Rightarrow> 'a) \<Rightarrow> 'a list \<Rightarrow> 'a list" where
  "modify_at i f xs = (if i < length xs then xs[i := f (xs ! i)] else xs)"

text \<open>\<open>clearTimeout\<close> and \<open>clearInterval\<close>: the timer will not fire again.\<close>

definition clearTimer :: "nat \<Rightarrow> env_timer list \<Rightarrow> env_timer list" where
  "clearTimer t ts = modify_at t (\<lambda>x. x\<lparr>active := False\<rparr>) ts"

text \<open>\<open>ws.close()\<close>: a socket that is not yet closing or closed starts closing.\<close>

definition ws_close :: "WebSocket \<Rightarrow> WebSocket" where
  "ws_close w = (if readyState w = CLOSING \<or> readyState w = CLOSED then w
                 else w\<lparr>readyState := CLOSING\<rparr>)"

text \<open>\<open>ws.send(frame)\<close> on socket \<open>w\<close>; every call site has checked that the socket is open.\<close>

definition ws_send :: "nat \<Rightarrow> json \<Rightarrow> hook_state \<Rightarrow> hook_state" where
  "ws_send w frame s = s\<lparr>sockets := modify_at w (\<lambda>x. x\<lparr>sent := sent x @ [frame]\<rparr>) (sockets s)\<rparr>"

definition readyState_of :: "hook_state \<Rightarrow> nat option \<Rightarrow> ReadyState option" where
  "readyState_of s r =
     (case r of None \<Rightarrow> None
      | Some w \<Rightarrow> if w < length (sockets s) then Some (readyState (sockets s ! w)) else None)"

definition cleanup :: "hook_state \<Rightarrow> hook_state" where
  "cleanup s =
     (let s1 = (case reconnectTimerRef s of
                  Some t \<Rightarrow> s\<lparr>timers := clearTimer t (timers s), reconnectTimerRef := None\<rparr>
                | None \<Rightarrow> s);
          s2 = (case pingIntervalRef s1 of
                  Some t \<Rightarrow> s1\<lparr>timers := clearTimer t (timers s1), pingIntervalRef := None\<rparr>
                | None \<Rightarrow> s1)
      in case wsRef s2 of
           Some w \<Rightarrow>
             s2\<lparr>sockets :=
                   modify_at w
                     (\<lambda>x. ws_close (x\<lparr>onopen := False, onmessage := False,
                                       onclose := False, onerror := False\<rparr>))
                     (sockets s2),
                 wsRef := None\<rparr>
         | None \<Rightarrow> s2)"

text \<open>
  What the environment does at \<open>connect()\<close>: there is no \<open>window\<close> (server side),
  \<open>new WebSocket(url)\<close> throws, or it returns a fresh socket in state CONNECTING.
\<close>

datatype ctor_outcome = NoWindow | Throws | Created

definition new_socket :: WebSocket where
  "new_socket = \<lparr>readyState = CONNECTING, onopen = True, onmessage = True,
                  onclose = True, onerror = True, sent = []\<rparr>"

definition connect :: "ctor_outcome \<Rightarrow> hook_state \<Rightarrow> hook_state" where
  "connect c s =
     (if readyState_of s (wsRef s) = Some OPEN \<or> readyState_of s (wsRef s) = Some CONNECTING
      then s
      else if c = NoWindow then s
      else
        let s1 = s\<lparr>status := Connecting, console := console s @ [LogConnecting]\<rparr>
        in if c = Throws
           then s1\<lparr>console := console s1 @ [ErrCreate], status := Error\<rparr>
           else s1\<lparr>sockets := sockets s1 @ [new_socket], wsRef := Some (length (sockets s1))\<rparr>)"

definition invoke :: "callback_call list \<Rightarrow> hook_state \<Rightarrow> hook_state" where
  "invoke cs s = s\<lparr>calls := calls s @ cs\<rparr>"

text \<open>
  The four handlers that \<open>connect()\<close> installs on the socket \<open>ws\<close> it has created.
  In the message handler, \<open>JSON.parse\<close> may throw, and so does reading \<open>message.type\<close>
  when the text parsed to \<open>null\<close>; the \<open>catch\<close> logs either. What a consumer callback
  does is outside the hook: a call is recorded and returns.
\<close>

definition ws_onopen :: "nat \<Rightarrow> hook_state \<Rightarrow> hook_state" where
  "ws_onopen ws s =
     (let s1 = s\<lparr>console := console s @ [LogConnected], status := Connected,
                  reconnectAttemptsRef := 0\<rparr>;
          s2 = invoke (case onConnectRef s1 of Some f \<Rightarrow> [CallOnConnect f] | None \<Rightarrow> []) s1
      in s2\<lparr>timers := timers s2 @ [\<lparr>kind = PingInterval ws 30000, active = True\<rparr>],
             pingIntervalRef := Some (length (timers s2))\<rparr>)"

definition ping_tick :: "nat \<Rightarrow> clock \<Rightarrow> hook_state \<Rightarrow> hook_state" where
  "ping_tick ws t s =
     (if readyState_of s (Some ws) = Some OPEN
      then ws_send ws
             (JSON_stringify [(''type'', Some (JStr ''ping'')), (''timestamp'', Some (JStr (now_iso t)))])
             (s\<lparr>lastPingTimeRef := now_ms t\<rparr>)
      else s)"

definition ws_onmessage :: "parse_result \<Rightarrow> clock \<Rightarrow> hook_state \<Rightarrow> hook_state" where
  "ws_onmessage p t s =
     (case p of
        SyntaxError \<Rightarrow> s\<lparr>console := console s @ [ErrParse]\<rparr>
      | Parsed message \<Rightarrow>
          if message = JNull then s\<lparr>console := console s @ [ErrParse]\<rparr>
          else if get_prop message ''type'' = Some (JStr ''stats'') \<and> truthy (get_prop message ''data'')
          then
            (case get_prop message ''data'' of
               None \<Rightarrow> s
             | Some d \<Rightarrow>
                 let s1 = (if trackLastMessageRef s then s\<lparr>lastMessage := Some d\<rparr> else s)
                 in invoke (case onMessageRef s1 of Some f \<Rightarrow> [CallOnMessage f d] | None \<Rightarrow> []) s1)
          else if get_prop message ''type'' = Some (JStr ''pong'')
          then (if lastPingTimeRef s > 0
                then s\<lparr>latency := Some (now_ms t - lastPingTimeRef s)\<rparr>
                else s)
          else s)"

definition backoff_delay :: "nat \<Rightarrow> nat" where
  "backoff_delay attempts = min (3000 * 2 ^ attempts) maxReconnectDelayMs"

definition ws_onclose :: "hook_state \<Rightarrow> hook_state" where
  "ws_onclose s =
     (let s1 = s\<lparr>console := console s @ [LogDisconnected], status := Disconnected\<rparr>;
          s2 = invoke (case onDisconnectRef s1 of Some f \<Rightarrow> [CallOnDisconnect f] | None \<Rightarrow> []) s1;
          s3 = (case pingIntervalRef s2 of
                  Some t \<Rightarrow> s2\<lparr>timers := clearTimer t (timers s2), pingIntervalRef := None\<rparr>
                | None \<Rightarrow> s2);
          delay = backoff_delay (reconnectAttemptsRef s3);
          s4 = s3\<lparr>reconnectAttemptsRef := reconnectAttemptsRef s3 + 1\<rparr>;
          s5 = s4\<lparr>console := console s4 @ [LogReconnecting delay (reconnectAttemptsRef s4)]\<rparr>
      in s5\<lparr>timers := timers s5 @ [\<lparr>kind = ReconnectTimeout delay, active = True\<rparr>],
             reconnectTimerRef := Some (length (timers s5))\<rparr>)"

definition ws_onerror :: "hook_state \<Rightarrow> hook_state" where
  "ws_onerror s =
     (let s1 = s\<lparr>console := console s @ [ErrConnection], status := Error\<rparr>
      in invoke (case onErrorRef s1 of Some f \<Rightarrow> [CallOnError f] | None \<Rightarrow> []) s1)"

definition disconnect :: "hook_state \<Rightarrow> hook_state" where
  "disconnect s = (cleanup (s\<lparr>reconnectAttemptsRef := 0\<rparr>))\<lparr>status := Disconnected\<rparr>"

text \<open>The object literal that the subscribe effect serialises.\<close>

definition subscribe_message :: "UseStatsWebSocketOptions \<Rightarrow> clock \<Rightarrow> (string \<times> json option) list" where
  "subscribe_message opts t =
     [(''type'', Some (JStr ''subscribe'')),
      (''backendId'', map_option JNum (backendId opts)),
      (''start'', map_option (\<lambda>r. JStr (range_start r)) (range opts)),
      (''end'', map_option (\<lambda>r. JStr (range_end r)) (range opts)),
      (''minPushIntervalMs'', map_option JNum (minPushIntervalMs opts)),
      (''includeTrend'', map_option JBool (includeTrend opts)),
      (''trendMinutes'', map_option JNum (trendMinutes opts)),
      (''trendBucketMinutes'', map_option JNum (trendBucketMinutes opts)),
      (''includeDeviceDetails'', map_option JBool (includeDeviceDetails opts)),
      (''deviceSourceIP'', map_option JStr (deviceSourceIP opts)),
      (''deviceDetailLimit'', map_option JNum (deviceDetailLimit opts)),
      (''includeProxyDetails'', map_option JBool (includeProxyDetails opts)),
      (''proxyChain'', map_option JStr (proxyChain opts)),
      (''proxyDetailLimit'', map_option JNum (proxyDetailLimit opts)),
      (''includeRuleDetails'', map_option JBool (includeRuleDetails opts)),
      (''ruleName'', map_option JStr (ruleName opts)),
      (''ruleDetailLimit'', map_option JNum (ruleDetailLimit opts)),
      (''includeRuleChainFlow'', map_option JBool (includeRuleChainFlow opts)),
      (''includeDomainsPage'', map_option JBool (includeDomainsPage opts)),
      (''domainsPageOffset'', map_option JNum (domainsPageOffset opts)),
      (''domainsPageLimit'', map_option JNum (domainsPageLimit opts)),
      (''domainsPageSortBy'', map_option JStr (domainsPageSortBy opts)),
      (''domainsPageSortOrder'', map_option JStr (domainsPageSortOrder opts)),
      (''domainsPageSearch'', map_option JStr (domainsPageSearch opts)),
      (''includeIPsPage'', map_option JBool (includeIPsPage opts)),
      (''ipsPageOffset'', map_option JNum (ipsPageOffset opts)),
      (''ipsPageLimit'', map_option JNum (ipsPageLimit opts)),
      (''ipsPageSortBy'', map_option JStr (ipsPageSortBy opts)),
      (''ipsPageSortOrder'', map_option JStr (ipsPageSortOrder opts)),
      (''ipsPageSearch'', map_option JStr (ipsPageSearch opts)),
      (''timestamp'', Some (JStr (now_iso t)))]"

text \<open>
  The body of the subscribe effect, run for a render that saw the options \<open>opts\<close> and the
  status \<open>st\<close>.
\<close>

definition subscribe_effect ::
  "UseStatsWebSocketOptions \<Rightarrow> ConnectionStatus \<Rightarrow> clock \<Rightarrow> hook_state \<Rightarrow> hook_state" where
  "subscribe_effect opts st t s =
     (if st \<noteq> Connected then s
      else if readyState_of s (wsRef s) \<noteq> Some OPEN then s
      else case backendId opts of
             None \<Rightarrow> s
           | Some b \<Rightarrow>
               (case wsRef s of
                  None \<Rightarrow> s
                | Some w \<Rightarrow>
                    ws_send w (JSON_stringify (subscribe_message opts t))
                      (s\<lparr>console := console s @ [LogSubscribing b]\<rparr>)))"

text \<open>
  The dependency list of the subscribe effect: the subscription parameters and the
  status, and neither the callbacks nor \<open>trackLastMessage\<close> nor \<open>enabled\<close>.
\<close>

definition subscribe_deps_of :: "UseStatsWebSocketOptions \<Rightarrow> ConnectionStatus \<Rightarrow> subscribe_deps" where
  "subscribe_deps_of opts st =
     (opts\<lparr>trackLastMessage := None, enabled := None, onMessage := None, onConnect := None,
            onDisconnect := None, onError := None\<rparr>, st)"

definition enabled_of :: "UseStatsWebSocketOptions \<Rightarrow> bool" where
  "enabled_of opts = (case enabled opts of None \<Rightarrow> True | Some b \<Rightarrow> b)"

text \<open>The body of the hook function: every render re-binds the callback refs.\<close>

definition render_body :: "UseStatsWebSocketOptions \<Rightarrow> hook_state \<Rightarrow> hook_state" where
  "render_body opts s =
     s\<lparr>props := opts,
       onMessageRef := onMessage opts,
       onConnectRef := onConnect opts,
       onDisconnectRef := onDisconnect opts,
       onErrorRef := onError opts,
       trackLastMessageRef := (case trackLastMessage opts of None \<Rightarrow> True | Some b \<Rightarrow> b)\<rparr>"

text \<open>
  React after a render: of the effects whose dependencies changed, first the clean-up
  functions of their previous run, then their bodies in the order of declaration. The
  enabled effect returns a clean-up function (\<open>disconnect\<close>) only from a run that found
  \<open>enabled\<close> true. The bodies see the status of the render, not a status set since.
\<close>

definition run_effects :: "ctor_outcome \<Rightarrow> clock \<Rightarrow> hook_state \<Rightarrow> hook_state" where
  "run_effects c t s =
     (let opts = props s;
          st = status s;
          en = enabled_of opts;
          en_changed = (enabledDeps s \<noteq> Some en);
          sub_changed = (subscribeDeps s \<noteq> Some (subscribe_deps_of opts st));
          s1 = (if en_changed \<and> enabledDeps s = Some True then disconnect s else s);
          s2 = (if sub_changed then subscribe_effect opts st t s1 else s1);
          s3 = (if en_changed
                then (if \<not> en then disconnect s2
                      else connect c (s2\<lparr>reconnectAttemptsRef := 0\<rparr>))
                else s2)
      in s3\<lparr>subscribeDeps := Some (subscribe_deps_of opts st), enabledDeps := Some en\<rparr>)"

text \<open>
  A state update made by a handler or an effect causes another render; the status is the
  only state variable among the dependencies, and the subscribe effect does not set it,
  so a second pass settles.
\<close>

definition commit :: "ctor_outcome \<Rightarrow> clock \<Rightarrow> hook_state \<Rightarrow> hook_state" where
  "commit c t s =
     (let s1 = run_effects c t (render_body (props s) s)
      in if status s1 \<noteq> status s then run_effects c t (render_body (props s1) s1) else s1)"

text \<open>
  What the browser does to a socket: the four events that have a handler slot, and the
  start of the closing handshake by the peer, which moves the ready state to CLOSING and
  runs no handler (the close event follows later).
\<close>

datatype ws_event = EvOpen | EvMessage parse_result | EvClose | EvError | EvClosing

definition transport :: "nat \<Rightarrow> ws_event \<Rightarrow> hook_state \<Rightarrow> hook_state" where
  "transport w ev s =
     s\<lparr>sockets :=
         modify_at w
           (\<lambda>x. x\<lparr>readyState := (case ev of EvOpen \<Rightarrow> OPEN | EvClose \<Rightarrow> CLOSED
                                   | EvClosing \<Rightarrow> CLOSING | _ \<Rightarrow> readyState x)\<rparr>)
           (sockets s)\<rparr>"

text \<open>An event on socket \<open>w\<close> runs the handler in the matching slot, if there is one.\<close>

definition dispatch :: "nat \<Rightarrow> ws_event \<Rightarrow> clock \<Rightarrow> hook_state \<Rightarrow> hook_state" where
  "dispatch w ev t s =
     (if w < length (sockets s)
      then (case ev of
              EvOpen \<Rightarrow> if onopen (sockets s ! w) then ws_onopen w s else s
            | EvMessage p \<Rightarrow> if onmessage (sockets s ! w) then ws_onmessage p t s else s
            | EvClose \<Rightarrow> if onclose (sockets s ! w) then ws_onclose s else s
            | EvError \<Rightarrow> if onerror (sockets s ! w) then ws_onerror s else s
            | EvClosing \<Rightarrow> s)
      else s)"

definition socket_event :: "nat \<Rightarrow> ws_event \<Rightarrow> clock \<Rightarrow> hook_state \<Rightarrow> hook_state" where
  "socket_event w ev t s = dispatch w ev t (transport w ev s)"

text \<open>A pending timer fires; a timeout is spent by firing, an interval stays.\<close>

definition timer_fires :: "nat \<Rightarrow> ctor_outcome \<Rightarrow> clock \<Rightarrow> hook_state \<Rightarrow> hook_state" where
  "timer_fires tid c t s =
     (if tid < length (timers s) \<and> active (timers s ! tid)
      then (case kind (timers s ! tid) of
              ReconnectTimeout d \<Rightarrow> connect c (s\<lparr>timers := clearTimer tid (timers s)\<rparr>)
            | PingInterval ws p \<Rightarrow> ping_tick ws t s)
      else s)"

text \<open>
  One turn of the event loop as the hook sees it: the parent renders it with new options,
  a socket event or a timer arrives, or the consumer calls the returned \<open>connect\<close> or
  \<open>disconnect\<close>; then React renders and runs the effects.
\<close>

datatype action =
    Render UseStatsWebSocketOptions
  | SocketEvent nat ws_event
  | TimerFires nat
  | CallConnect
  | CallDisconnect

definition step :: "ctor_outcome \<Rightarrow> clock \<Rightarrow> action \<Rightarrow> hook_state \<Rightarrow> hook_state" where
  "step c t a s =
     commit c t
       (case a of
          Render opts \<Rightarrow> render_body opts s
        | SocketEvent w ev \<Rightarrow> socket_event w ev t s
        | TimerFires tid \<Rightarrow> timer_fires tid c t s
        | CallConnect \<Rightarrow> connect c s
        | CallDisconnect \<Rightarrow> disconnect s)"

fun run :: "(ctor_outcome \<times> clock \<times> action) list \<Rightarrow> hook_state \<Rightarrow> hook_state" where
  "run [] s = s"
| "run ((c, t, a) # rest) s = run rest (step c t a s)"

text \<open>The hook before its first effects have run, and the mount.\<close>

definition initial :: "UseStatsWebSocketOptions \<Rightarrow> hook_state" where
  "initial opts =
     \<lparr>status = Disconnected, lastMessage = None, latency = None, wsRef = None,
      reconnectTimerRef = None, pingIntervalRef = None, lastPingTimeRef = 0,
      reconnectAttemptsRef = 0, onMessageRef = None, onConnectRef = None,
      onDisconnectRef = None, onErrorRef = None, trackLastMessageRef = True,
      sockets = [], timers = [], calls = [], console = [],
      props = opts, subscribeDeps = None, enabledDeps = None\<rparr>"

definition mount :: "ctor_outcome \<Rightarrow> clock \<Rightarrow> UseStatsWebSocketOptions \<Rightarrow> hook_state" where
  "mount c t opts = commit c t (initial opts)"

section \<open>The dashboard page (DashboardPage)\<close>

datatype TimePreset = P1m | P5m | P15m | P30m | P24h | P7d | P30d | Ptoday | Pcustom

definition isRollingTimePreset :: "TimePreset \<Rightarrow> bool" where
  "isRollingTimePreset preset = (preset \<noteq> Pcustom)"

text \<open>
  Modelled from the spec: the query key builders \<open>getSummaryQueryKey\<close>,
  \<open>getCountriesQueryKey\<close> and \<open>getDevicesQueryKey\<close> live in \<open>@/lib/stats-query-keys\<close>, which
  is not among the sources. The spec gives a cache key as the view kind, the backend
  identifier and a fingerprint of the parameters (here the limit, if any, and the range).
\<close>

datatype view_kind = SummaryView | CountriesView | DevicesView

datatype query_key = QueryKey view_kind int "int option" TimeRange

definition getSummaryQueryKey :: "int \<Rightarrow> TimeRange \<Rightarrow> query_key" where
  "getSummaryQueryKey b r = QueryKey SummaryView b None r"

definition getCountriesQueryKey :: "int \<Rightarrow> int \<Rightarrow> TimeRange \<Rightarrow> query_key" where
  "getCountriesQueryKey b limit r = QueryKey CountriesView b (Some limit) r"

definition getDevicesQueryKey :: "int \<Rightarrow> int \<Rightarrow> TimeRange \<Rightarrow> query_key" where
  "getDevicesQueryKey b limit r = QueryKey DevicesView b (Some limit) r"

text \<open>
  What one render of the page sees: its own state variables, the identifier of the
  active backend (\<open>activeBackend?.id\<close>), the range that \<open>useStableTimeRange\<close> returned, the
  status and last message that \<open>useStatsWebSocket\<close> returned, the query cache, and the
  key prefixes handed to \<open>invalidateQueries\<close> so far.
\<close>

record dashboard =
  activeTab :: string
  timeRange :: TimeRange
  timePreset :: TimePreset
  autoRefresh :: bool
  autoRefreshTick :: nat
  activeBackendId :: "int option"
  stableTimeRange :: TimeRange
  wsStatus :: ConnectionStatus
  wsSummary :: "json option"
  queryCache :: "query_key \<Rightarrow> json option"
  invalidated :: "string list list"

text \<open>\<open>!!activeBackendId\<close>: a number is truthy unless it is 0.\<close>

definition has_backend :: "dashboard \<Rightarrow> bool" where
  "has_backend d = (case activeBackendId d of None \<Rightarrow> False | Some b \<Rightarrow> b \<noteq> 0)"

definition isWsSummaryTab :: "dashboard \<Rightarrow> bool" where
  "isWsSummaryTab d =
     (activeTab d = ''overview'' \<or> activeTab d = ''domains'' \<or> activeTab d = ''countries'' \<or>
      activeTab d = ''proxies'' \<or> activeTab d = ''devices'')"

definition wsEnabled :: "dashboard \<Rightarrow> bool" where
  "wsEnabled d = (autoRefresh d \<and> isWsSummaryTab d \<and> has_backend d)"

definition wsConnected :: "dashboard \<Rightarrow> bool" where
  "wsConnected d = (wsStatus d = Connected)"

definition wsRealtimeActive :: "dashboard \<Rightarrow> bool" where
  "wsRealtimeActive d = (wsEnabled d \<and> wsConnected d)"

definition shouldReducePolling :: "dashboard \<Rightarrow> bool" where
  "shouldReducePolling d = wsRealtimeActive d"

text \<open>\<open>wsSummary?.countryStats\<close>: \<open>undefined\<close> when there is no last message.\<close>

definition wsSummary_countryStats :: "dashboard \<Rightarrow> json option" where
  "wsSummary_countryStats d =
     (case wsSummary d of None \<Rightarrow> None | Some m \<Rightarrow> get_prop m ''countryStats'')"

definition hasWsCountries :: "dashboard \<Rightarrow> bool" where
  "hasWsCountries d =
     (wsRealtimeActive d \<and> truthy (wsSummary_countryStats d) \<and>
      (activeTab d = ''overview'' \<or> activeTab d = ''countries''))"

definition needsCountries :: "dashboard \<Rightarrow> bool" where
  "needsCountries d = (activeTab d = ''overview'' \<or> activeTab d = ''countries'')"

text \<open>The \<open>enabled\<close> option of the two pull queries.\<close>

definition summaryQuery_enabled :: "dashboard \<Rightarrow> bool" where
  "summaryQuery_enabled d = (has_backend d \<and> \<not> (wsEnabled d \<and> wsConnected d))"

definition countriesQuery_enabled :: "dashboard \<Rightarrow> bool" where
  "countriesQuery_enabled d = (has_backend d \<and> needsCountries d \<and> \<not> hasWsCountries d)"

text \<open>
  The \<open>onMessage\<close> callback handed to the hook. \<open>setQueryData\<close> with an updater stores
  the updater's result for the old entry (\<open>undefined\<close> if there is none).
\<close>

definition summary_updater :: "json \<Rightarrow> json option \<Rightarrow> json" where
  "summary_updater stats previous =
     JObj (spread2
       (case previous of
          Some (JObj kvs) \<Rightarrow> own_props (JObj kvs)
        | Some (JArr xs) \<Rightarrow> own_props (JArr xs)
        | _ \<Rightarrow> [])
       (own_props stats))"

definition setQueryData :: "query_key \<Rightarrow> json \<Rightarrow> dashboard \<Rightarrow> dashboard" where
  "setQueryData k v d = d\<lparr>queryCache := (queryCache d)(k \<mapsto> v)\<rparr>"

definition dashboard_onMessage :: "json \<Rightarrow> dashboard \<Rightarrow> dashboard" where
  "dashboard_onMessage stats d =
     (case activeBackendId d of
        None \<Rightarrow> d
      | Some b \<Rightarrow>
          if b = 0 then d
          else
            let d1 = d\<lparr>autoRefreshTick := autoRefreshTick d + 1\<rparr>;
                d2 = setQueryData (getSummaryQueryKey b (stableTimeRange d))
                       (summary_updater stats (queryCache d1 (getSummaryQueryKey b (stableTimeRange d))))
                       d1;
                d3 = (case get_prop stats ''countryStats'' of
                        Some cs \<Rightarrow>
                          if truthy (Some cs)
                          then setQueryData (getCountriesQueryKey b 50 (stableTimeRange d)) cs d2
                          else d2
                      | None \<Rightarrow> d2)
            in (case get_prop stats ''deviceStats'' of
                  Some ds \<Rightarrow>
                    if truthy (Some ds)
                    then setQueryData (getDevicesQueryKey b 50 (stableTimeRange d)) ds d3
                    else d3
                | None \<Rightarrow> d3))"

text \<open>
  The two polling effects. Each gives the period of the interval it sets up, or \<open>None\<close>
  when it returns before \<open>setInterval\<close>; the tick is what the interval's callback does.
  \<open>getPresetTimeRange\<close> (from \<open>@/lib/api\<close>, read at the time of the tick) is a parameter.
\<close>

definition rolling_interval :: "dashboard \<Rightarrow> nat option" where
  "rolling_interval d =
     (if \<not> autoRefresh d \<or> \<not> isRollingTimePreset (timePreset d) then None
      else Some (if activeTab d = ''rules'' then 30000
                 else if shouldReducePolling d then 30000 else 5000))"




text \<open>The page as the hook's results reach it, and a render of the page for the examples.\<close>

definition with_hook :: "hook_state \<Rightarrow> dashboard \<Rightarrow> dashboard" where
  "with_hook h d = d\<lparr>wsStatus := status h, wsSummary := lastMessage h\<rparr>"

definition example_dashboard :: dashboard where
  "example_dashboard =
     \<lparr>activeTab = ''overview'',
      timeRange = \<lparr>range_start = ''t0'', range_end = ''t1''\<rparr>,
      timePreset = P24h, autoRefresh = True, autoRefreshTick = 0,
      activeBackendId = Some 1,
      stableTimeRange = \<lparr>range_start = ''t0'', range_end = ''t1''\<rparr>,
      wsStatus = Disconnected, wsSummary = None,
      queryCache = Map.empty, invalidated = []\<rparr>"

section \<open>Vocabulary of the properties\<close>

text \<open>
  A socket with its four handlers in place; a socket with all four handler slots
  \<open>null\<close>, and such a socket in the store; the socket that \<open>wsRef\<close> names, with its
  handlers in place; a state in which the enabled effect has run for the current value of
  \<open>enabled\<close>; a state in which both effects have run for the current render (every state
  after \<open>commit\<close> is one). Then the delays of all reconnect timeouts made so far, oldest
  first, and a failure streak: \<open>n\<close> times, the current socket closes and the reconnect
  timer that its close handler scheduled fires, \<open>new WebSocket\<close> succeeding.
\<close>

definition attached :: "WebSocket \<Rightarrow> bool" where
  "attached x = (onopen x \<and> onmessage x \<and> onclose x \<and> onerror x)"



definition current_socket :: "hook_state \<Rightarrow> nat \<Rightarrow> bool" where
  "current_socket s w = (wsRef s = Some w \<and> w < length (sockets s) \<and> attached (sockets s ! w))"

definition enabled_settled :: "hook_state \<Rightarrow> bool" where
  "enabled_settled s = (enabledDeps s = Some (enabled_of (props s)))"

definition settled :: "hook_state \<Rightarrow> bool" where
  "settled s = (enabled_settled s \<and>
                subscribeDeps s = Some (subscribe_deps_of (props s) (status s)))"

definition reconnect_delays :: "hook_state \<Rightarrow> nat list" where
  "reconnect_delays s =
     List.map_filter (\<lambda>k. case k of ReconnectTimeout d \<Rightarrow> Some d | PingInterval w p \<Rightarrow> None)
       (map kind (timers s))"

fun failure_streak :: "nat \<Rightarrow> clock \<Rightarrow> hook_state \<Rightarrow> hook_state" where
  "failure_streak 0 t s = s"
| "failure_streak (Suc n) t s =
     (case wsRef s of
        None \<Rightarrow> s
      | Some w \<Rightarrow>
          let s1 = step Created t (SocketEvent w EvClose) s
          in case reconnectTimerRef s1 of
               None \<Rightarrow> s1
             | Some tid \<Rightarrow> failure_streak n t (step Created t (TimerFires tid) s1))"

text \<open>The default \<open>options = {}\<close>, and a clock reading for the examples.\<close>

definition no_options :: UseStatsWebSocketOptions where
  "no_options =
     \<lparr>backendId = None, range = None, minPushIntervalMs = None, includeTrend = None,
      trendMinutes = None, trendBucketMinutes = None, includeDeviceDetails = None,
      deviceSourceIP = None, deviceDetailLimit = None, includeProxyDetails = None,
      proxyChain = None, proxyDetailLimit = None, includeRuleDetails = None, ruleName = None,
      ruleDetailLimit = None, includeRuleChainFlow = None, includeDomainsPage = None,
      domainsPageOffset = None, domainsPageLimit = None, domainsPageSortBy = None,
      domainsPageSortOrder = None, domainsPageSearch = None, includeIPsPage = None,
      ipsPageOffset = None, ipsPageLimit = None, ipsPageSortBy = None,
      ipsPageSortOrder = None, ipsPageSearch = None, trackLastMessage = None, enabled = None,
      onMessage = None, onConnect = None, onDisconnect = None, onError = None\<rparr>"

definition epoch :: clock where
  "epoch = \<lparr>now_ms = 0, now_iso = ''1970-01-01T00:00:00.000Z''\<rparr>"

section \<open>Properties\<close>

lemma length_modify_at [simp]: "length (modify_at i f xs) = length xs"
  by (simp add: modify_at_def)

lemma nth_modify_at [simp]:
  "j < length xs \<Longrightarrow> modify_at i f xs ! j = (if j = i then f (xs ! j) else xs ! j)"
  by (simp add: modify_at_def)

lemma map_kind_clearTimer [simp]: "map kind (clearTimer t ts) = map kind ts"
  by (auto simp: clearTimer_def modify_at_def map_update list_eq_iff_nth_eq nth_list_update)

lemma length_clearTimer [simp]: "length (clearTimer t ts) = length ts"
  by (simp add: clearTimer_def)

lemma subscribe_effect_frame:
  "status (subscribe_effect opts st t s) = status s"
  "timers (subscribe_effect opts st t s) = timers s"
  "wsRef (subscribe_effect opts st t s) = wsRef s"
  "reconnectTimerRef (subscribe_effect opts st t s) = reconnectTimerRef s"
  "pingIntervalRef (subscribe_effect opts st t s) = pingIntervalRef s"
  "reconnectAttemptsRef (subscribe_effect opts st t s) = reconnectAttemptsRef s"
  "lastMessage (subscribe_effect opts st t s) = lastMessage s"
  "latency (subscribe_effect opts st t s) = latency s"
  "calls (subscribe_effect opts st t s) = calls s"
  "props (subscribe_effect opts st t s) = props s"
  "enabledDeps (subscribe_effect opts st t s) = enabledDeps s"
  "subscribeDeps (subscribe_effect opts st t s) = subscribeDeps s"
  "length (sockets (subscribe_effect opts st t s)) = length (sockets s)"
  by (simp_all add: subscribe_effect_def ws_send_def split: option.splits)

lemma subscribe_effect_not_connected:
  "st \<noteq> Connected \<Longrightarrow> subscribe_effect opts st t s = s"
  by (simp add: subscribe_effect_def)

lemma cleanup_frame:
  "props (cleanup s) = props s"
  "enabledDeps (cleanup s) = enabledDeps s"
  "subscribeDeps (cleanup s) = subscribeDeps s"
  "status (cleanup s) = status s"
  "reconnectAttemptsRef (cleanup s) = reconnectAttemptsRef s"
  "wsRef (cleanup s) = None"
  "reconnectTimerRef (cleanup s) = None"
  "pingIntervalRef (cleanup s) = None"
  "length (sockets (cleanup s)) = length (sockets s)"
  "map kind (timers (cleanup s)) = map kind (timers s)"
  "length (timers (cleanup s)) = length (timers s)"
  by (simp_all add: cleanup_def Let_def split: option.splits)

lemma disconnect_frame:
  "props (disconnect s) = props s"
  "enabledDeps (disconnect s) = enabledDeps s"
  "subscribeDeps (disconnect s) = subscribeDeps s"
  "status (disconnect s) = Disconnected"
  "reconnectAttemptsRef (disconnect s) = 0"
  "wsRef (disconnect s) = None"
  "reconnectTimerRef (disconnect s) = None"
  "pingIntervalRef (disconnect s) = None"
  "length (sockets (disconnect s)) = length (sockets s)"
  "map kind (timers (disconnect s)) = map kind (timers s)"
  "length (timers (disconnect s)) = length (timers s)"
  by (simp_all add: disconnect_def cleanup_frame)

lemma connect_frame:
  "props (connect c s) = props s"
  "enabledDeps (connect c s) = enabledDeps s"
  "subscribeDeps (connect c s) = subscribeDeps s"
  "reconnectAttemptsRef (connect c s) = reconnectAttemptsRef s"
  "timers (connect c s) = timers s"
  by (simp_all add: connect_def Let_def)

lemma run_effects_facts:
  "props (run_effects c t s) = props s"
  "enabledDeps (run_effects c t s) = Some (enabled_of (props s))"
  "subscribeDeps (run_effects c t s) = Some (subscribe_deps_of (props s) (status s))"
  by (simp_all add: run_effects_def Let_def disconnect_frame connect_frame subscribe_effect_frame)

lemma run_effects_enabled_settled:
  "enabled_settled s \<Longrightarrow>
   run_effects c t s =
     (if subscribeDeps s \<noteq> Some (subscribe_deps_of (props s) (status s))
      then subscribe_effect (props s) (status s) t s else s)
     \<lparr>subscribeDeps := Some (subscribe_deps_of (props s) (status s)),
      enabledDeps := Some (enabled_of (props s))\<rparr>"
  by (simp add: run_effects_def enabled_settled_def Let_def)

lemma run_effects_status:
  "enabled_settled s \<Longrightarrow> status (run_effects c t s) = status s"
  by (simp add: run_effects_enabled_settled subscribe_effect_frame)

lemma render_body_frame:
  "status (render_body opts s) = status s"
  "props (render_body opts s) = opts"
  "enabledDeps (render_body opts s) = enabledDeps s"
  "subscribeDeps (render_body opts s) = subscribeDeps s"
  "sockets (render_body opts s) = sockets s"
  "timers (render_body opts s) = timers s"
  "wsRef (render_body opts s) = wsRef s"
  "reconnectAttemptsRef (render_body opts s) = reconnectAttemptsRef s"
  "reconnectTimerRef (render_body opts s) = reconnectTimerRef s"
  by (simp_all add: render_body_def)

lemma commit_enabled_settled:
  "enabled_settled s \<Longrightarrow>
   commit c t s = run_effects c t (render_body (props s) s)"
proof -
  assume a: "enabled_settled s"
  have "enabled_settled (render_body (props s) s)"
    using a by (simp add: enabled_settled_def render_body_frame)
  then have "status (run_effects c t (render_body (props s) s)) = status s"
    by (simp add: run_effects_status render_body_frame)
  then show ?thesis by (simp add: commit_def Let_def)
qed

lemma commit_not_connected:
  assumes "enabled_settled s" "status s \<noteq> Connected"
  shows "commit c t s =
           (render_body (props s) s)
             \<lparr>subscribeDeps := Some (subscribe_deps_of (props s) (status s)),
              enabledDeps := Some (enabled_of (props s))\<rparr>"
proof -
  have e: "enabled_settled (render_body (props s) s)"
    using assms(1) by (simp add: enabled_settled_def render_body_frame)
  show ?thesis
    using assms(2)
    by (simp add: commit_enabled_settled[OF assms(1)] run_effects_enabled_settled[OF e]
          render_body_frame subscribe_effect_not_connected)
qed

lemma settled_commit: "settled (commit c t s)"
proof -
  let ?s1 = "run_effects c t (render_body (props s) s)"
  have p: "props (render_body (props s) s) = props s" "status (render_body (props s) s) = status s"
    by (simp_all add: render_body_def)
  show ?thesis
  proof (cases "status ?s1 = status s")
    case True
    then show ?thesis
      by (simp add: commit_def Let_def settled_def enabled_settled_def run_effects_facts p)
  next
    case False
    let ?r = "render_body (props ?s1) ?s1"
    have r: "props ?r = props s" "status ?r = status ?s1" "enabledDeps ?r = Some (enabled_of (props s))"
      by (simp_all add: render_body_def run_effects_facts p)
    have "status (run_effects c t ?r) = status ?r"
      by (rule run_effects_status) (simp add: r enabled_settled_def)
    with False show ?thesis
      by (simp add: commit_def Let_def settled_def enabled_settled_def run_effects_facts r)
  qed
qed

lemma settled_step: "settled (step c t a s)"
  by (simp add: step_def settled_commit)

lemma ws_onclose_facts:
  "status (ws_onclose s) = Disconnected"
  "wsRef (ws_onclose s) = wsRef s"
  "sockets (ws_onclose s) = sockets s"
  "props (ws_onclose s) = props s"
  "enabledDeps (ws_onclose s) = enabledDeps s"
  "reconnectAttemptsRef (ws_onclose s) = Suc (reconnectAttemptsRef s)"
  "reconnectTimerRef (ws_onclose s) = Some (length (timers s))"
  "length (timers (ws_onclose s)) = Suc (length (timers s))"
  "map kind (timers (ws_onclose s)) =
     map kind (timers s) @ [ReconnectTimeout (backoff_delay (reconnectAttemptsRef s))]"
  "n = length (timers s) \<Longrightarrow> active (timers (ws_onclose s) ! n)"
  "n = length (timers s) \<Longrightarrow>
     kind (timers (ws_onclose s) ! n) = ReconnectTimeout (backoff_delay (reconnectAttemptsRef s))"
  by (simp_all add: ws_onclose_def invoke_def Let_def nth_append split: option.splits)

lemma close_step:
  fixes c t
  assumes "current_socket s w" "enabled_settled s"
  defines "s' \<equiv> step c t (SocketEvent w EvClose) s"
  shows "status s' = Disconnected" "wsRef s' = Some w" "length (sockets s') = length (sockets s)"
    "readyState (sockets s' ! w) = CLOSED"
    "reconnectAttemptsRef s' = Suc (reconnectAttemptsRef s)"
    "reconnectTimerRef s' = Some (length (timers s))"
    "length (timers s') = Suc (length (timers s))"
    "map kind (timers s') = map kind (timers s) @ [ReconnectTimeout (backoff_delay (reconnectAttemptsRef s))]"
    "active (timers s' ! length (timers s))"
proof -
  let ?h = "socket_event w EvClose t s"
  have h: "?h = ws_onclose (transport w EvClose s)"
    using assms(1,2) by (simp add: socket_event_def dispatch_def transport_def current_socket_def attached_def)
  have st: "enabled_settled ?h" "status ?h \<noteq> Connected"
    using assms(2) by (simp_all add: h ws_onclose_facts enabled_settled_def transport_def)
  have s': "s' = (render_body (props ?h) ?h)\<lparr>subscribeDeps := Some (subscribe_deps_of (props ?h) (status ?h)),
                          enabledDeps := Some (enabled_of (props ?h))\<rparr>"
    unfolding s'_def step_def using commit_not_connected[OF st] by simp
  show "status s' = Disconnected" "wsRef s' = Some w" "length (sockets s') = length (sockets s)"
    "readyState (sockets s' ! w) = CLOSED"
    "reconnectAttemptsRef s' = Suc (reconnectAttemptsRef s)"
    "reconnectTimerRef s' = Some (length (timers s))"
    "length (timers s') = Suc (length (timers s))"
    "map kind (timers s') = map kind (timers s) @ [ReconnectTimeout (backoff_delay (reconnectAttemptsRef s))]"
    "active (timers s' ! length (timers s))"
    using assms(1)
    by (simp_all add: s' h render_body_frame ws_onclose_facts transport_def current_socket_def)
qed

lemma connect_created:
  assumes "readyState_of s (wsRef s) \<noteq> Some OPEN" "readyState_of s (wsRef s) \<noteq> Some CONNECTING"
  shows "connect Created s =
           s\<lparr>status := Connecting, console := console s @ [LogConnecting],
             sockets := sockets s @ [new_socket], wsRef := Some (length (sockets s))\<rparr>"
  using assms by (simp add: connect_def Let_def)

lemma timer_step:
  fixes t
  assumes "wsRef s = Some w" "w < length (sockets s)" "readyState (sockets s ! w) = CLOSED"
    "enabled_settled s" "tid < length (timers s)" "active (timers s ! tid)"
    "kind (timers s ! tid) = ReconnectTimeout d"
  defines "s' \<equiv> step Created t (TimerFires tid) s"
  shows "current_socket s' (length (sockets s))" "status s' = Connecting"
    "reconnectAttemptsRef s' = reconnectAttemptsRef s"
    "map kind (timers s') = map kind (timers s)"
    "length (timers s') = length (timers s)"
proof -
  let ?h = "timer_fires tid Created t s"
  have h: "?h = (s\<lparr>timers := clearTimer tid (timers s)\<rparr>)
                 \<lparr>status := Connecting, console := console s @ [LogConnecting],
                  sockets := sockets s @ [new_socket], wsRef := Some (length (sockets s))\<rparr>"
    using assms(1-7) by (simp add: timer_fires_def connect_created readyState_of_def)
  have st: "enabled_settled ?h" "status ?h \<noteq> Connected"
    using assms(4) by (simp_all add: h enabled_settled_def)
  have s': "s' = (render_body (props ?h) ?h)\<lparr>subscribeDeps := Some (subscribe_deps_of (props ?h) (status ?h)),
                          enabledDeps := Some (enabled_of (props ?h))\<rparr>"
    unfolding s'_def step_def using commit_not_connected[OF st] by simp
  show "current_socket s' (length (sockets s))" "status s' = Connecting"
    "reconnectAttemptsRef s' = reconnectAttemptsRef s"
    "map kind (timers s') = map kind (timers s)"
    "length (timers s') = length (timers s)"
    by (simp_all add: s' h render_body_frame current_socket_def attached_def new_socket_def)
qed

lemma reconnect_delays_snoc:
  "map kind (timers s') = map kind (timers s) @ [ReconnectTimeout d] \<Longrightarrow>
   reconnect_delays s' = reconnect_delays s @ [d]"
  by (simp add: reconnect_delays_def map_filter_def)

lemma reconnect_delays_cong:
  "map kind (timers s') = map kind (timers s) \<Longrightarrow> reconnect_delays s' = reconnect_delays s"
  by (simp add: reconnect_delays_def)

lemma failure_streak_delays:
  "current_socket s w \<Longrightarrow> settled s \<Longrightarrow>
   reconnect_delays (failure_streak n t s) =
     reconnect_delays s @ map backoff_delay [reconnectAttemptsRef s ..< reconnectAttemptsRef s + n]"
proof (induction n arbitrary: s w)
  case 0
  then show ?case by simp
next
  case (Suc n)
  let ?s1 = "step Created t (SocketEvent w EvClose) s"
  let ?tid = "length (timers s)"
  let ?s2 = "step Created t (TimerFires ?tid) ?s1"
  have es: "enabled_settled s" using Suc.prems(2) by (simp add: settled_def)
  note c = close_step[OF Suc.prems(1) es, of Created t]
  have k: "kind (timers ?s1 ! ?tid) = ReconnectTimeout (backoff_delay (reconnectAttemptsRef s))"
    using c(8) c(7) by (metis length_map lessI nth_append_length nth_map)
  have w: "w < length (sockets ?s1)" using Suc.prems c(3) by (simp add: current_socket_def)
  have es1: "enabled_settled ?s1" using settled_step[of Created t _ s] by (simp add: settled_def)
  have lt: "?tid < length (timers ?s1)" using c(7) by simp
  note ts = timer_step[OF c(2) w c(4) es1 lt c(9) k, of t]
  have unfold: "failure_streak (Suc n) t s = failure_streak n t ?s2"
    using Suc.prems c(6) by (simp add: current_socket_def Let_def)
  have "reconnect_delays (failure_streak n t ?s2) =
          reconnect_delays ?s2 @ map backoff_delay [reconnectAttemptsRef ?s2 ..< reconnectAttemptsRef ?s2 + n]"
    using Suc.IH[OF ts(1) settled_step] .
  moreover have "reconnect_delays ?s2 = reconnect_delays s @ [backoff_delay (reconnectAttemptsRef s)]"
    using reconnect_delays_cong[OF ts(4)] reconnect_delays_snoc[OF c(8)] by simp
  moreover have "reconnectAttemptsRef ?s2 = Suc (reconnectAttemptsRef s)"
    using ts(3) c(5) by simp
  ultimately show ?case
    unfolding unfold by (simp add: upt_rec[of "reconnectAttemptsRef s"])
qed


lemmas hook_defs = mount_def initial_def commit_def run_effects_def render_body_def
  subscribe_effect_def subscribe_deps_of_def enabled_of_def connect_def disconnect_def cleanup_def
  readyState_of_def new_socket_def step_def socket_event_def transport_def dispatch_def
  ws_onopen_def ws_onclose_def ws_onerror_def ws_onmessage_def invoke_def timer_fires_def
  ping_tick_def ws_send_def clearTimer_def modify_at_def ws_close_def backoff_delay_def
  maxReconnectDelayMs_def Let_def

lemma subscribe_effect_sockets:
  "w < length (sockets s) \<Longrightarrow>
     attached (sockets (subscribe_effect opts st t s) ! w) = attached (sockets s ! w)"
  by (simp add: subscribe_effect_def ws_send_def attached_def split: option.splits)

lemma ws_onopen_facts:
  "status (ws_onopen w s) = Connected"
  "wsRef (ws_onopen w s) = wsRef s"
  "sockets (ws_onopen w s) = sockets s"
  "props (ws_onopen w s) = props s"
  "enabledDeps (ws_onopen w s) = enabledDeps s"
  "subscribeDeps (ws_onopen w s) = subscribeDeps s"
  "reconnectAttemptsRef (ws_onopen w s) = 0"
  "map kind (timers (ws_onopen w s)) = map kind (timers s) @ [PingInterval w 30000]"
  by (simp_all add: ws_onopen_def invoke_def Let_def split: option.splits)

lemma reconnect_delays_ping:
  "map kind (timers s') = map kind (timers s) @ [PingInterval w p] \<Longrightarrow>
   reconnect_delays s' = reconnect_delays s"
  by (simp add: reconnect_delays_def map_filter_def)

lemma run_effects_settled_frame:
  assumes "enabled_settled s"
  shows "timers (run_effects c t s) = timers s"
    "wsRef (run_effects c t s) = wsRef s"
    "reconnectAttemptsRef (run_effects c t s) = reconnectAttemptsRef s"
    "reconnectTimerRef (run_effects c t s) = reconnectTimerRef s"
    "length (sockets (run_effects c t s)) = length (sockets s)"
    "w < length (sockets s) \<Longrightarrow> attached (sockets (run_effects c t s) ! w) = attached (sockets s ! w)"
  by (simp_all add: run_effects_enabled_settled[OF assms] subscribe_effect_frame subscribe_effect_sockets)

lemma open_step:
  fixes c t
  assumes "current_socket s w" "enabled_settled s"
  defines "s' \<equiv> step c t (SocketEvent w EvOpen) s"
  shows "status s' = Connected" "current_socket s' w" "reconnectAttemptsRef s' = 0"
    "reconnect_delays s' = reconnect_delays s"
proof -
  let ?h = "socket_event w EvOpen t s"
  have h: "?h = ws_onopen w (transport w EvOpen s)"
    using assms(1) by (simp add: socket_event_def dispatch_def transport_def current_socket_def attached_def)
  have es: "enabled_settled ?h"
    using assms(2) by (simp add: h ws_onopen_facts enabled_settled_def transport_def)
  let ?r = "render_body (props ?h) ?h"
  have er: "enabled_settled ?r"
    using es by (simp add: enabled_settled_def render_body_frame)
  have s': "s' = run_effects c t ?r"
    unfolding s'_def step_def using commit_enabled_settled[OF es] by simp
  note f = run_effects_settled_frame[OF er, where c = c and t = t]
  have w: "w < length (sockets ?r)"
    using assms(1) by (simp add: render_body_frame h ws_onopen_facts transport_def current_socket_def)
  have a: "attached (sockets ?r ! w)"
    using assms(1) by (simp add: render_body_frame h ws_onopen_facts transport_def current_socket_def attached_def)
  have k: "map kind (timers s') = map kind (timers s) @ [PingInterval w 30000]"
    unfolding s' f(1) by (simp add: render_body_frame h ws_onopen_facts transport_def)
  show "status s' = Connected"
    unfolding s' run_effects_status[OF er] by (simp add: render_body_frame h ws_onopen_facts)
  have "wsRef s' = Some w"
    unfolding s' f(2) using assms(1) by (simp add: render_body_frame h ws_onopen_facts transport_def current_socket_def)
  moreover have "w < length (sockets s')"
    unfolding s' f(5) using w .
  moreover have "attached (sockets s' ! w)"
    unfolding s' f(6)[OF w] using a .
  ultimately show "current_socket s' w"
    by (simp add: current_socket_def)
  show "reconnectAttemptsRef s' = 0"
    unfolding s' f(3) by (simp add: render_body_frame h ws_onopen_facts)
  show "reconnect_delays s' = reconnect_delays s"
    using reconnect_delays_ping[OF k] .
qed

lemma backoff_delay_mono: "m \<le> n \<Longrightarrow> backoff_delay m \<le> backoff_delay n"
  unfolding backoff_delay_def
  by (metis min.mono mult_le_mono2 one_le_numeral order_refl power_increasing)

lemma backoff_delay_sorted: "sorted (map backoff_delay [a..<b])"
  by (simp add: sorted_iff_nth_mono backoff_delay_mono)

subsection \<open>Reconnect backoff\<close>

text \<open>
  C2. In a failure streak (the current socket closes, the reconnect timer fires and
  \<open>connect()\<close> makes a new socket, again and again) that starts with the attempt counter
  at \<open>a\<close>, the delays of the reconnect timeouts scheduled are
  \<open>min (3000 * 2 ^ k) 30000\<close> for \<open>k = a, a + 1, \<dots>\<close>, in this order. The open event of the
  current socket resets the counter to 0, so a streak after it starts again at 3000.
  The delays of a streak never decrease, and from a counter of 0 they are
  3000, 6000, 12000, 24000, 30000, 30000.
\<close>

theorem reconnect_backoff_schedule:
  assumes "current_socket s w" and "settled s"
  shows "reconnect_delays (failure_streak n t s) =
           reconnect_delays s @
           map (\<lambda>k. min (3000 * 2 ^ k) 30000) [reconnectAttemptsRef s ..< reconnectAttemptsRef s + n]
         \<and> reconnectAttemptsRef (step c t' (SocketEvent w EvOpen) s) = 0
         \<and> reconnect_delays (failure_streak n t (step c t' (SocketEvent w EvOpen) s)) =
             reconnect_delays s @ map (\<lambda>k. min (3000 * 2 ^ k) 30000) [0..<n]
         \<and> sorted (map backoff_delay [a..<b])
         \<and> map backoff_delay [0..<6] = [3000, 6000, 12000, 24000, 30000, 30000]"
proof -
  have bd: "backoff_delay = (\<lambda>k. min (3000 * 2 ^ k) 30000)"
    by (simp add: backoff_delay_def maxReconnectDelayMs_def fun_eq_iff)
  have es: "enabled_settled s" using assms(2) by (simp add: settled_def)
  note o = open_step[OF assms(1) es, of c t']
  have "reconnect_delays (failure_streak n t (step c t' (SocketEvent w EvOpen) s)) =
          reconnect_delays s @ map backoff_delay [0..<n]"
    using failure_streak_delays[OF o(2) settled_step, of n t] o(3) o(4) by simp
  moreover have "map backoff_delay [0..<6] = [3000, 6000, 12000, 24000, 30000, 30000]"
    by (simp add: backoff_delay_def maxReconnectDelayMs_def upt_rec)
  ultimately show ?thesis
    using failure_streak_delays[OF assms, of n t] o(3) backoff_delay_sorted[of a b]
    by (simp add: bd)
qed

theorem reconnect_backoff_schedule_witness:
  "current_socket (mount Created epoch no_options) 0
   \<and> settled (mount Created epoch no_options)
   \<and> reconnect_delays
       (failure_streak 6 epoch
          (step Created epoch (SocketEvent 0 EvOpen) (mount Created epoch no_options))) =
     [3000, 6000, 12000, 24000, 30000, 30000]"
proof -
  have c: "current_socket (mount Created epoch no_options) 0"
    by (simp add: hook_defs current_socket_def attached_def no_options_def)
  have s: "settled (mount Created epoch no_options)"
    by (simp add: mount_def settled_commit)
  have r: "reconnect_delays (mount Created epoch no_options) = []"
    by (simp add: hook_defs reconnect_delays_def no_options_def map_filter_def)
  show ?thesis
    using reconnect_backoff_schedule[OF c s, of 6 epoch Created epoch 0 0] c s r
    by (simp add: upt_rec)
qed

lemma modify_at_id: "(\<And>x. f x = x) \<Longrightarrow> modify_at i f xs = xs"
  by (simp add: modify_at_def)

lemma transport_message: "transport w (EvMessage p) s = s"
  by (simp add: transport_def modify_at_id)

subsection \<open>Inbound frames\<close>

text \<open>
  C8 (as amended). An inbound frame whose payload is not JSON (\<open>JSON.parse\<close> throws), or
  is the JSON text \<open>null\<close> (reading its \<open>type\<close> throws), is dropped and logged: the state
  after the message event is the state before it with one more console entry. So the
  status, \<open>lastMessage\<close>, the latency, the record of callback calls, the sockets (none is
  closed, nothing is sent), \<open>wsRef\<close> and the timers are as before. A frame that parses to
  anything else and whose \<open>type\<close> is neither \<open>stats\<close> nor \<open>pong\<close> is dropped as well, the
  whole state staying as it is, and nothing is logged for it.
\<close>

theorem malformed_frame_discarded:
  "socket_event w (EvMessage SyntaxError) t s =
     (if w < length (sockets s) \<and> onmessage (sockets s ! w)
      then s\<lparr>console := console s @ [ErrParse]\<rparr> else s)
   \<and> socket_event w (EvMessage (Parsed JNull)) t s =
     (if w < length (sockets s) \<and> onmessage (sockets s ! w)
      then s\<lparr>console := console s @ [ErrParse]\<rparr> else s)
   \<and> status (socket_event w (EvMessage SyntaxError) t s) = status s
   \<and> lastMessage (socket_event w (EvMessage SyntaxError) t s) = lastMessage s
   \<and> latency (socket_event w (EvMessage SyntaxError) t s) = latency s
   \<and> calls (socket_event w (EvMessage SyntaxError) t s) = calls s
   \<and> sockets (socket_event w (EvMessage SyntaxError) t s) = sockets s
   \<and> wsRef (socket_event w (EvMessage SyntaxError) t s) = wsRef s
   \<and> timers (socket_event w (EvMessage SyntaxError) t s) = timers s
   \<and> (message \<noteq> JNull \<and> get_prop message ''type'' \<noteq> Some (JStr ''stats'')
        \<and> get_prop message ''type'' \<noteq> Some (JStr ''pong'')
        \<longrightarrow> socket_event w (EvMessage (Parsed message)) t s = s)"
  by (simp add: socket_event_def transport_message dispatch_def ws_onmessage_def)

theorem malformed_frame_discarded_witness:
  "JObj [(''type'', JStr ''bogus'')] \<noteq> JNull
   \<and> get_prop (JObj [(''type'', JStr ''bogus'')]) ''type'' \<noteq> Some (JStr ''stats'')
   \<and> get_prop (JObj [(''type'', JStr ''bogus'')]) ''type'' \<noteq> Some (JStr ''pong'')
   \<and> onmessage (sockets (step Created epoch (SocketEvent 0 EvOpen) (mount Created epoch no_options)) ! 0)
   \<and> socket_event 0 (EvMessage (Parsed (JObj [(''type'', JStr ''bogus'')]))) epoch
        (step Created epoch (SocketEvent 0 EvOpen) (mount Created epoch no_options))
     = step Created epoch (SocketEvent 0 EvOpen) (mount Created epoch no_options)
   \<and> console (socket_event 0 (EvMessage SyntaxError) epoch
        (step Created epoch (SocketEvent 0 EvOpen) (mount Created epoch no_options)))
     = [LogConnecting, LogConnected, ErrParse]"
proof -
  let ?h = "step Created epoch (SocketEvent 0 EvOpen) (mount Created epoch no_options)"
  let ?m = "JObj [(''type'', JStr ''bogus'')]"
  have a: "?m \<noteq> JNull" "get_prop ?m ''type'' \<noteq> Some (JStr ''stats'')"
    "get_prop ?m ''type'' \<noteq> Some (JStr ''pong'')"
    by simp_all
  have b: "onmessage (sockets ?h ! 0)" "0 < length (sockets ?h)"
    "console ?h = [LogConnecting, LogConnected]"
    by (simp_all add: hook_defs no_options_def)
  note th = malformed_frame_discarded[of 0 epoch ?h ?m]
  have "socket_event 0 (EvMessage (Parsed ?m)) epoch ?h = ?h"
    using th a by blast
  moreover have "socket_event 0 (EvMessage SyntaxError) epoch ?h = ?h\<lparr>console := console ?h @ [ErrParse]\<rparr>"
    using th b(1,2) by simp
  ultimately show ?thesis
    using a b by simp
qed

text \<open>
  C8 as stated fails for frames that are JSON and yet no well-formed message. On an open
  socket of a hook with an \<open>onMessage\<close> callback: a frame of type \<open>stats\<close> whose \<open>data\<close> is the
  string \<open>ab\<close> becomes \<open>lastMessage\<close> and is handed to the callback; a frame of an unknown
  type, and a frame that is the number 5, are dropped without a log entry.
\<close>

theorem ill_formed_frame_counterexample:
  "lastMessage (step Created epoch (SocketEvent 0 EvOpen)
                  (mount Created epoch (no_options\<lparr>onMessage := Some 7\<rparr>))) = None
   \<and> calls (step Created epoch (SocketEvent 0 EvOpen)
                  (mount Created epoch (no_options\<lparr>onMessage := Some 7\<rparr>))) = []
   \<and> lastMessage
        (socket_event 0
           (EvMessage (Parsed (JObj [(''type'', JStr ''stats''), (''data'', JStr ''ab'')]))) epoch
           (step Created epoch (SocketEvent 0 EvOpen)
              (mount Created epoch (no_options\<lparr>onMessage := Some 7\<rparr>)))) = Some (JStr ''ab'')
   \<and> calls
        (socket_event 0
           (EvMessage (Parsed (JObj [(''type'', JStr ''stats''), (''data'', JStr ''ab'')]))) epoch
           (step Created epoch (SocketEvent 0 EvOpen)
              (mount Created epoch (no_options\<lparr>onMessage := Some 7\<rparr>)))) = [CallOnMessage 7 (JStr ''ab'')]
   \<and> console
        (socket_event 0 (EvMessage (Parsed (JObj [(''type'', JStr ''bogus'')]))) epoch
           (step Created epoch (SocketEvent 0 EvOpen)
              (mount Created epoch (no_options\<lparr>onMessage := Some 7\<rparr>)))) =
       console (step Created epoch (SocketEvent 0 EvOpen)
                  (mount Created epoch (no_options\<lparr>onMessage := Some 7\<rparr>)))
   \<and> console
        (socket_event 0 (EvMessage (Parsed (JNum 5))) epoch
           (step Created epoch (SocketEvent 0 EvOpen)
              (mount Created epoch (no_options\<lparr>onMessage := Some 7\<rparr>)))) =
       console (step Created epoch (SocketEvent 0 EvOpen)
                  (mount Created epoch (no_options\<lparr>onMessage := Some 7\<rparr>)))"
  by (simp add: hook_defs no_options_def)

text \<open>
  C10. A message that parses, has type \<open>stats\<close> and carries no \<open>data\<close> (the property is
  absent, or holds a falsy value such as \<open>null\<close>) changes nothing at all: \<open>lastMessage\<close>,
  the record of callback calls, the status and the sockets are as before.
\<close>

theorem stats_without_data_ignored:
  assumes "get_prop message ''type'' = Some (JStr ''stats'')"
    and "\<not> truthy (get_prop message ''data'')"
  shows "socket_event w (EvMessage (Parsed message)) t s = s"
proof -
  have "message \<noteq> JNull" using assms(1) by auto
  then have "ws_onmessage (Parsed message) t s = s"
    using assms by (simp add: ws_onmessage_def)
  then show ?thesis
    by (simp add: socket_event_def transport_message dispatch_def)
qed

theorem stats_without_data_ignored_witness:
  "get_prop (JObj [(''type'', JStr ''stats''), (''backendId'', JNum 1), (''timestamp'', JStr ''T'')]) ''type''
     = Some (JStr ''stats'')
   \<and> get_prop (JObj [(''type'', JStr ''stats''), (''backendId'', JNum 1), (''timestamp'', JStr ''T'')]) ''data''
     = None
   \<and> socket_event 0
        (EvMessage (Parsed (JObj [(''type'', JStr ''stats''), (''backendId'', JNum 1), (''timestamp'', JStr ''T'')])))
        epoch (step Created epoch (SocketEvent 0 EvOpen) (mount Created epoch no_options))
     = step Created epoch (SocketEvent 0 EvOpen) (mount Created epoch no_options)
   \<and> onmessage (sockets (step Created epoch (SocketEvent 0 EvOpen) (mount Created epoch no_options)) ! 0)"
proof -
  let ?m = "JObj [(''type'', JStr ''stats''), (''backendId'', JNum 1), (''timestamp'', JStr ''T'')]"
  have a: "get_prop ?m ''type'' = Some (JStr ''stats'')" by simp
  have b: "\<not> truthy (get_prop ?m ''data'')" by simp
  have c: "onmessage (sockets (step Created epoch (SocketEvent 0 EvOpen) (mount Created epoch no_options)) ! 0)"
    by (simp add: hook_defs no_options_def)
  show ?thesis
    using stats_without_data_ignored[OF a b] c by simp
qed

subsection \<open>Disconnecting and enabling again\<close>

lemma subscribe_effect_no_socket:
  "wsRef s = None \<Longrightarrow> subscribe_effect opts st t s = s"
  by (simp add: subscribe_effect_def readyState_of_def)

lemma disable_pass:
  fixes c t
  assumes "enabledDeps s = Some True" "\<not> enabled_of (props s)"
  defines "x \<equiv> run_effects c t s"
  shows "status x = Disconnected" "wsRef x = None" "reconnectAttemptsRef x = 0"
    "map kind (timers x) = map kind (timers s)" "length (sockets x) = length (sockets s)"
  using assms(1,2)
  by (simp_all add: x_def run_effects_def Let_def disconnect_frame subscribe_effect_frame)

lemma second_pass:
  fixes c t st
  assumes "enabled_settled x"
  defines "y \<equiv> (if status x \<noteq> st then run_effects c t (render_body (props x) x) else x)"
  shows "status y = status x" "wsRef y = wsRef x" "reconnectAttemptsRef y = reconnectAttemptsRef x"
    "timers y = timers x" "length (sockets y) = length (sockets x)"
    "w < length (sockets x) \<Longrightarrow> attached (sockets y ! w) = attached (sockets x ! w)"
proof -
  have e: "enabled_settled (render_body (props x) x)"
    using assms(1) by (simp add: enabled_settled_def render_body_frame)
  note f = run_effects_settled_frame[OF e, where c = c and t = t] run_effects_status[OF e, of c t]
  show "status y = status x" "wsRef y = wsRef x" "reconnectAttemptsRef y = reconnectAttemptsRef x"
    "timers y = timers x" "length (sockets y) = length (sockets x)"
    "w < length (sockets x) \<Longrightarrow> attached (sockets y ! w) = attached (sockets x ! w)"
    by (simp_all add: y_def f render_body_frame)
qed

lemma commit_two_pass:
  "commit c t s =
     (let x = run_effects c t (render_body (props s) s)
      in if status x \<noteq> status s then run_effects c t (render_body (props x) x) else x)"
  by (simp add: commit_def)

lemma run_effects_enabled_settled_after: "enabled_settled (run_effects c t s)"
  by (simp add: enabled_settled_def run_effects_facts)

lemma disable_step:
  fixes c t
  assumes "enabledDeps s = Some True" "\<not> enabled_of off"
  defines "s' \<equiv> step c t (Render off) s"
  shows "status s' = Disconnected" "wsRef s' = None" "reconnectAttemptsRef s' = 0"
    "map kind (timers s') = map kind (timers s)" "length (sockets s') = length (sockets s)"
    "enabledDeps s' = Some False"
proof -
  let ?r = "render_body off s"
  let ?r2 = "render_body (props ?r) ?r"
  let ?x = "run_effects c t ?r2"
  have r: "enabledDeps ?r2 = Some True" "\<not> enabled_of (props ?r2)"
    using assms(1,2) by (simp_all add: render_body_frame)
  note d = disable_pass[OF r, of c t]
  note sp = second_pass[OF run_effects_enabled_settled_after[of c t ?r2], where c = c and t = t and st = "status ?r"]
  have s': "s' = (if status ?x \<noteq> status ?r then run_effects c t (render_body (props ?x) ?x) else ?x)"
    by (simp add: s'_def step_def commit_two_pass Let_def)
  show "status s' = Disconnected" unfolding s' sp(1) using d(1) .
  show "wsRef s' = None" unfolding s' sp(2) using d(2) .
  show "reconnectAttemptsRef s' = 0" unfolding s' sp(3) using d(3) .
  show "map kind (timers s') = map kind (timers s)" unfolding s' sp(4) using d(4) by (simp add: render_body_frame)
  show "length (sockets s') = length (sockets s)" unfolding s' sp(5) using d(5) by (simp add: render_body_frame)
  have "settled s'" unfolding s'_def by (rule settled_step)
  moreover have "props s' = off"
    by (simp add: s'_def step_def commit_def Let_def run_effects_facts render_body_frame)
  ultimately show "enabledDeps s' = Some False"
    using assms(2) by (simp add: settled_def enabled_settled_def)
qed

lemma enable_pass:
  fixes t
  assumes "enabledDeps s = Some False" "enabled_of (props s)" "wsRef s = None"
  defines "x \<equiv> run_effects Created t s"
  shows "status x = Connecting" "current_socket x (length (sockets s))" "reconnectAttemptsRef x = 0"
    "timers x = timers s"
proof -
  have sub: "subscribe_effect (props s) (status s) t s = s"
    using assms(3) by (rule subscribe_effect_no_socket)
  have x: "x = (connect Created (s\<lparr>reconnectAttemptsRef := 0\<rparr>))
                 \<lparr>subscribeDeps := Some (subscribe_deps_of (props s) (status s)),
                  enabledDeps := Some True\<rparr>"
    using assms(1,2) by (simp add: x_def run_effects_def Let_def sub)
  have c: "connect Created (s\<lparr>reconnectAttemptsRef := 0\<rparr>) =
             s\<lparr>reconnectAttemptsRef := 0, status := Connecting, console := console s @ [LogConnecting],
               sockets := sockets s @ [new_socket], wsRef := Some (length (sockets s))\<rparr>"
    using assms(3) by (simp add: connect_created readyState_of_def)
  show "status x = Connecting" "current_socket x (length (sockets s))" "reconnectAttemptsRef x = 0"
    "timers x = timers s"
    by (simp_all add: x c current_socket_def attached_def new_socket_def)
qed

lemma enable_step:
  fixes t
  assumes "enabledDeps s = Some False" "enabled_of on" "wsRef s = None"
  defines "s' \<equiv> step Created t (Render on) s"
  shows "current_socket s' (length (sockets s))" "reconnectAttemptsRef s' = 0"
    "timers s' = timers s"
proof -
  let ?r = "render_body on s"
  let ?r2 = "render_body (props ?r) ?r"
  let ?x = "run_effects Created t ?r2"
  have r: "enabledDeps ?r2 = Some False" "enabled_of (props ?r2)" "wsRef ?r2 = None"
    using assms(1-3) by (simp_all add: render_body_frame)
  note d = enable_pass[OF r, of t]
  note sp = second_pass[OF run_effects_enabled_settled_after[of Created t ?r2],
      where c = Created and t = t and st = "status ?r"]
  have s': "s' = (if status ?x \<noteq> status ?r then run_effects Created t (render_body (props ?x) ?x) else ?x)"
    by (simp add: s'_def step_def commit_two_pass Let_def)
  have l: "length (sockets s) < length (sockets ?x)" "wsRef ?x = Some (length (sockets s))"
    "attached (sockets ?x ! length (sockets s))"
    using d(2) by (simp_all add: current_socket_def render_body_frame)
  show "current_socket s' (length (sockets s))"
    unfolding current_socket_def s' sp(2) sp(5) sp(6)[OF l(1)] using l by simp
  show "reconnectAttemptsRef s' = 0" unfolding s' sp(3) using d(3) .
  show "timers s' = timers s" unfolding s' sp(4) using d(4) by (simp add: render_body_frame)
qed

lemma disconnect_cancels:
  "tid < length (timers s) \<Longrightarrow> reconnectTimerRef s = Some tid \<or> pingIntervalRef s = Some tid \<Longrightarrow>
     \<not> active (timers (disconnect s) ! tid)"
  by (auto simp: disconnect_def cleanup_def Let_def clearTimer_def split: option.splits)

lemma disconnect_closes:
  "wsRef s = Some w \<Longrightarrow> w < length (sockets s) \<Longrightarrow>
     (readyState (sockets (disconnect s) ! w) = CLOSING \<or> readyState (sockets (disconnect s) ! w) = CLOSED)
     \<and> \<not> onopen (sockets (disconnect s) ! w) \<and> \<not> onmessage (sockets (disconnect s) ! w)
     \<and> \<not> onclose (sockets (disconnect s) ! w) \<and> \<not> onerror (sockets (disconnect s) ! w)"
  by (simp add: disconnect_def cleanup_def Let_def ws_close_def split: option.splits)


lemma call_disconnect_step:
  fixes c t
  assumes "enabled_settled s"
  defines "s' \<equiv> step c t CallDisconnect s"
  shows "wsRef s' = None" "reconnectAttemptsRef s' = 0" "map kind (timers s') = map kind (timers s)"
    "length (sockets s') = length (sockets s)"
proof -
  have e: "enabled_settled (disconnect s)" "status (disconnect s) \<noteq> Connected"
    using assms(1) by (simp_all add: enabled_settled_def disconnect_frame)
  show "wsRef s' = None" "reconnectAttemptsRef s' = 0" "map kind (timers s') = map kind (timers s)"
    "length (sockets s') = length (sockets s)"
    by (simp_all add: s'_def step_def commit_not_connected[OF e] render_body_frame disconnect_frame)
qed

lemma call_connect_step:
  fixes t
  assumes "enabled_settled s" "wsRef s = None"
  defines "s' \<equiv> step Created t CallConnect s"
  shows "current_socket s' (length (sockets s))" "reconnectAttemptsRef s' = reconnectAttemptsRef s"
    "timers s' = timers s"
proof -
  have c: "connect Created s =
             s\<lparr>status := Connecting, console := console s @ [LogConnecting],
               sockets := sockets s @ [new_socket], wsRef := Some (length (sockets s))\<rparr>"
    using assms(2) by (simp add: connect_created readyState_of_def)
  have e: "enabled_settled (connect Created s)" "status (connect Created s) \<noteq> Connected"
    using assms(1) by (simp_all add: c enabled_settled_def)
  show "current_socket s' (length (sockets s))" "reconnectAttemptsRef s' = reconnectAttemptsRef s"
    "timers s' = timers s"
    unfolding s'_def step_def action.case commit_not_connected[OF e]
    by (simp_all add: c render_body_frame current_socket_def attached_def new_socket_def)
qed

text \<open>
  C9. \<open>disconnect\<close> sets the attempt counter to 0, clears both timer refs and cancels the
  timers they named, starts closing the socket and sets the status to disconnected. So
  when a mounted, enabled hook is rendered with \<open>enabled\<close> false and later with \<open>enabled\<close>
  true (or the consumer calls \<open>disconnect()\<close> and later \<open>connect()\<close>), the failure streak of
  the new socket schedules the delays 3000, 6000, \<dots> from the start, whatever the counter
  was before.
\<close>

theorem disconnect_fresh_backoff:
  assumes "settled s" and "enabled_of (props s)" and "\<not> enabled_of off" and "enabled_of on"
  shows "reconnectAttemptsRef (disconnect s0) = 0
         \<and> status (disconnect s0) = Disconnected
         \<and> wsRef (disconnect s0) = None
         \<and> reconnectTimerRef (disconnect s0) = None
         \<and> pingIntervalRef (disconnect s0) = None
         \<and> (\<forall>tid < length (timers s0).
               reconnectTimerRef s0 = Some tid \<or> pingIntervalRef s0 = Some tid
               \<longrightarrow> \<not> active (timers (disconnect s0) ! tid))
         \<and> (\<forall>w < length (sockets s0).
               wsRef s0 = Some w
               \<longrightarrow> (readyState (sockets (disconnect s0) ! w) = CLOSING
                    \<or> readyState (sockets (disconnect s0) ! w) = CLOSED))
         \<and> reconnectAttemptsRef (step c t1 (Render off) s) = 0
         \<and> reconnect_delays
              (failure_streak n t (step Created t2 (Render on) (step c t1 (Render off) s))) =
             reconnect_delays s @ map (\<lambda>k. min (3000 * 2 ^ k) 30000) [0..<n]
         \<and> reconnect_delays
              (failure_streak n t (step Created t2 CallConnect (step c t1 CallDisconnect s))) =
             reconnect_delays s @ map (\<lambda>k. min (3000 * 2 ^ k) 30000) [0..<n]"
proof -
  have bd: "backoff_delay = (\<lambda>k. min (3000 * 2 ^ k) 30000)"
    by (simp add: backoff_delay_def maxReconnectDelayMs_def fun_eq_iff)
  have es: "enabled_settled s" and ed: "enabledDeps s = Some True"
    using assms(1,2) by (simp_all add: settled_def enabled_settled_def)
  note d = disable_step[OF ed assms(3), of c t1]
  note e = enable_step[OF d(6) assms(4) d(2), of t2]
  have 1: "reconnect_delays
              (failure_streak n t (step Created t2 (Render on) (step c t1 (Render off) s))) =
             reconnect_delays s @ map backoff_delay [0..<n]"
    using failure_streak_delays[OF e(1) settled_step, of n t] e(2)
      reconnect_delays_cong[OF d(4)] e(3)
    by (simp add: reconnect_delays_def)
  note cd = call_disconnect_step[OF es, of c t1]
  have es1: "enabled_settled (step c t1 CallDisconnect s)"
    using settled_step[of c t1 CallDisconnect s] by (simp add: settled_def)
  note cc = call_connect_step[OF es1 cd(1), of t2]
  have 2: "reconnect_delays
              (failure_streak n t (step Created t2 CallConnect (step c t1 CallDisconnect s))) =
             reconnect_delays s @ map backoff_delay [0..<n]"
    using failure_streak_delays[OF cc(1) settled_step, of n t] cc(2) cd(2)
      reconnect_delays_cong[OF cd(3)] cc(3)
    by (simp add: reconnect_delays_def)
  show ?thesis
    using 1 2 d(3) disconnect_cancels[of _ s0] disconnect_closes[of s0]
    by (simp add: bd disconnect_frame)
qed

theorem disconnect_fresh_backoff_witness:
  "settled (failure_streak 2 epoch (mount Created epoch no_options))
   \<and> enabled_of (props (failure_streak 2 epoch (mount Created epoch no_options)))
   \<and> \<not> enabled_of (no_options\<lparr>enabled := Some False\<rparr>)
   \<and> enabled_of no_options
   \<and> reconnectAttemptsRef (failure_streak 2 epoch (mount Created epoch no_options)) = 2
   \<and> reconnect_delays
        (failure_streak 1 epoch
          (step Created epoch (Render no_options)
            (step Created epoch (Render (no_options\<lparr>enabled := Some False\<rparr>))
              (failure_streak 2 epoch (mount Created epoch no_options))))) =
       [3000, 6000, 3000]"
proof -
  let ?s = "failure_streak 2 epoch (mount Created epoch no_options)"
  have two: "2 = Suc (Suc 0)" by simp
  have a: "settled ?s"
    unfolding two failure_streak.simps
    by (simp add: hook_defs no_options_def settled_def enabled_settled_def)
  have b: "enabled_of (props ?s)" 
    unfolding two failure_streak.simps
    by (simp add: hook_defs no_options_def)
  have c: "\<not> enabled_of (no_options\<lparr>enabled := Some False\<rparr>)" "enabled_of no_options"
    by (simp_all add: enabled_of_def no_options_def)
  have d: "reconnectAttemptsRef ?s = 2" "reconnect_delays ?s = [3000, 6000]"
    unfolding two failure_streak.simps
    by (simp_all add: hook_defs no_options_def reconnect_delays_def map_filter_def)
  show ?thesis
    using disconnect_fresh_backoff[OF a b c, of "initial no_options" Created epoch 1 epoch epoch] a b c d
    by simp
qed

subsection \<open>Events of a superseded socket\<close>

























subsection \<open>The subscribe frame\<close>

lemma render_step_not_connected:
  fixes c t
  assumes "enabled_settled s" "status s \<noteq> Connected" "enabled_of opts = enabled_of (props s)"
  defines "s' \<equiv> step c t (Render opts) s"
  shows "sockets s' = sockets s" "status s' = status s" "wsRef s' = wsRef s" "props s' = opts"
proof -
  let ?r = "render_body opts s"
  have e: "enabled_settled ?r" "status ?r \<noteq> Connected"
    using assms(1-3) by (simp_all add: enabled_settled_def render_body_frame)
  show "sockets s' = sockets s" "status s' = status s" "wsRef s' = wsRef s" "props s' = opts"
    unfolding s'_def step_def action.case commit_not_connected[OF e]
    by (simp_all add: render_body_frame)
qed

lemma renders_not_connected:
  assumes "enabled_settled s" "status s \<noteq> Connected"
    "\<forall>r \<in> set rs. enabled_of (snd (snd r)) = enabled_of (props s)"
  defines "s' \<equiv> run (map (\<lambda>(c, t, opts). (c, t, Render opts)) rs) s"
  shows "sockets s' = sockets s \<and> status s' = status s \<and> wsRef s' = wsRef s
         \<and> props s' = (if rs = [] then props s else snd (snd (last rs)))
         \<and> (rs \<noteq> [] \<longrightarrow> settled s')"
  using assms(1-3) unfolding s'_def
proof (induction rs arbitrary: s)
  case Nil
  then show ?case by simp
next
  case (Cons r rs)
  obtain c t opts where r: "r = (c, t, opts)" by (cases r) auto
  let ?s1 = "step c t (Render opts) s"
  have en: "enabled_of opts = enabled_of (props s)" using Cons.prems(3) r by simp
  note f = render_step_not_connected[OF Cons.prems(1,2) en, of c t]
  have st: "settled ?s1" by (rule settled_step)
  then have es: "enabled_settled ?s1" by (simp add: settled_def)
  have nc: "status ?s1 \<noteq> Connected" using f(2) Cons.prems(2) by simp
  have al: "\<forall>r \<in> set rs. enabled_of (snd (snd r)) = enabled_of (props ?s1)"
    using Cons.prems(3) f(4) en by simp
  note ih = Cons.IH[OF es nc al]
  show ?case
    using ih f st by (cases "rs = []") (simp_all add: r)
qed

lemma open_step_sent:
  fixes c t
  assumes "current_socket s w" "settled s" "status s \<noteq> Connected"
  defines "s' \<equiv> step c t (SocketEvent w EvOpen) s"
  shows "map sent (sockets s') =
           (map sent (sockets s))
             [w := sent (sockets s ! w) @
                   (case backendId (props s) of
                      None \<Rightarrow> []
                    | Some b \<Rightarrow> [JSON_stringify (subscribe_message (props s) t)])]"
proof -
  let ?h = "socket_event w EvOpen t s"
  have h: "?h = ws_onopen w (transport w EvOpen s)"
    using assms(1) by (simp add: socket_event_def dispatch_def transport_def current_socket_def attached_def)
  have es: "enabled_settled ?h"
    using assms(2) by (simp add: h ws_onopen_facts enabled_settled_def settled_def transport_def)
  let ?r = "render_body (props ?h) ?h"
  have er: "enabled_settled ?r"
    using es by (simp add: enabled_settled_def render_body_frame)
  have s': "s' = run_effects c t ?r"
    unfolding s'_def step_def using commit_enabled_settled[OF es] by simp
  have r: "props ?r = props s" "status ?r = Connected" "wsRef ?r = Some w"
    "sockets ?r = modify_at w (\<lambda>x. x\<lparr>readyState := OPEN\<rparr>) (sockets s)"
    "subscribeDeps ?r = Some (subscribe_deps_of (props s) (status s))"
    using assms(1,2)
    by (simp_all add: render_body_frame h ws_onopen_facts transport_def current_socket_def settled_def)
  have ch: "subscribeDeps ?r \<noteq> Some (subscribe_deps_of (props ?r) (status ?r))"
    using assms(3) by (simp add: r subscribe_deps_of_def)
  have so: "sockets s' = sockets (subscribe_effect (props s) Connected t ?r)"
    unfolding s' run_effects_enabled_settled[OF er] using ch by (simp add: r)
  have w: "w < length (sockets s)" using assms(1) by (simp add: current_socket_def)
  have rs: "readyState_of ?r (wsRef ?r) = Some OPEN"
    using w by (simp add: r readyState_of_def)
  have "sockets (subscribe_effect (props s) Connected t ?r) =
          (case backendId (props s) of
             None \<Rightarrow> sockets ?r
           | Some b \<Rightarrow> modify_at w (\<lambda>x. x\<lparr>sent := sent x @ [JSON_stringify (subscribe_message (props s) t)]\<rparr>)
                        (sockets ?r))"
    using rs r(3) by (simp add: subscribe_effect_def ws_send_def split: option.splits)
  then show ?thesis
    unfolding so using w
    by (auto simp: r(4) modify_at_def list_eq_iff_nth_eq nth_list_update split: option.splits)
qed

text \<open>
  C3 (as amended). A hook is mounted with a socket that is not yet connected; the parent
  renders it any number of times with new subscription parameters (the value of \<open>enabled\<close>
  staying as it is). No frame is sent by these renders. When the socket then opens, the
  frames sent are those sent before plus, on this socket, exactly one subscribe frame
  built from the options of the last render if these have a \<open>backendId\<close>, and no frame at
  all if they have none.
\<close>

theorem subscribe_coalesced_until_connect:
  assumes "current_socket s w" and "settled s" and "status s \<noteq> Connected"
    and "rs \<noteq> []" and "\<forall>r \<in> set rs. enabled_of (snd (snd r)) = enabled_of (props s)"
  shows "map sent (sockets (run (map (\<lambda>(c, t, opts). (c, t, Render opts)) rs) s)) = map sent (sockets s)
         \<and> map sent (sockets (step c' t' (SocketEvent w EvOpen)
                                 (run (map (\<lambda>(c, t, opts). (c, t, Render opts)) rs) s))) =
             (map sent (sockets s))
               [w := sent (sockets s ! w) @
                     (case backendId (snd (snd (last rs))) of
                        None \<Rightarrow> []
                      | Some b \<Rightarrow> [JSON_stringify (subscribe_message (snd (snd (last rs))) t')])]"
proof -
  let ?s1 = "run (map (\<lambda>(c, t, opts). (c, t, Render opts)) rs) s"
  have es: "enabled_settled s" using assms(2) by (simp add: settled_def)
  note f = renders_not_connected[OF es assms(3,5)]
  have cs: "current_socket ?s1 w" using assms(1) f by (simp add: current_socket_def)
  have st: "settled ?s1" using f assms(4) by simp
  have nc: "status ?s1 \<noteq> Connected" using f assms(3) by simp
  have p: "props ?s1 = snd (snd (last rs))" "sockets ?s1 = sockets s"
    using f assms(4) by simp_all
  show ?thesis
    using open_step_sent[OF cs st nc, of c' t'] unfolding p by simp
qed


theorem subscribe_coalesced_until_connect_witness:
  "current_socket (mount Created epoch (no_options\<lparr>backendId := Some 1\<rparr>)) 0
   \<and> settled (mount Created epoch (no_options\<lparr>backendId := Some 1\<rparr>))
   \<and> status (mount Created epoch (no_options\<lparr>backendId := Some 1\<rparr>)) \<noteq> Connected
   \<and> map sent (sockets
         (step Created epoch (SocketEvent 0 EvOpen)
           (run [(Created, epoch, Render (no_options\<lparr>backendId := Some 2\<rparr>)),
                 (Created, epoch, Render (no_options\<lparr>backendId := Some 3, includeTrend := Some True\<rparr>))]
             (mount Created epoch (no_options\<lparr>backendId := Some 1\<rparr>))))) =
       [ [JObj [(''type'', JStr ''subscribe''), (''backendId'', JNum 3), (''includeTrend'', JBool True),
               (''timestamp'', JStr ''1970-01-01T00:00:00.000Z'')] ] ]"
proof -
  let ?s = "mount Created epoch (no_options\<lparr>backendId := Some 1\<rparr>)"
  let ?rs = "[(Created, epoch, no_options\<lparr>backendId := Some 2\<rparr>),
              (Created, epoch, no_options\<lparr>backendId := Some 3, includeTrend := Some True\<rparr>)]"
  have a: "current_socket ?s 0" "settled ?s" "status ?s \<noteq> Connected"
    by (simp_all add: hook_defs current_socket_def attached_def settled_def enabled_settled_def no_options_def)
  have b: "?rs \<noteq> []" "\<forall>r \<in> set ?rs. enabled_of (snd (snd r)) = enabled_of (props ?s)"
    by (simp_all add: hook_defs no_options_def)
  have c: "map sent (sockets ?s) = [ [] ]"
    by (simp add: hook_defs no_options_def)
  have d: "JSON_stringify (subscribe_message (no_options\<lparr>backendId := Some 3, includeTrend := Some True\<rparr>) epoch)
           = JObj [(''type'', JStr ''subscribe''), (''backendId'', JNum 3), (''includeTrend'', JBool True),
               (''timestamp'', JStr ''1970-01-01T00:00:00.000Z'')]"
    by (simp add: JSON_stringify_def subscribe_message_def no_options_def map_filter_def epoch_def)
  have e: "sent (sockets ?s ! 0) = []"
    by (simp add: hook_defs no_options_def)
  show ?thesis
    using subscribe_coalesced_until_connect[OF a b, of Created epoch] a
    by (simp add: c d e)
qed

text \<open>
  C3 as stated fails when the latest parameters have no \<open>backendId\<close>: after renders with
  backend 1, backend 2 and then no backend, the socket opens, the status is connected,
  and no subscribe frame has been sent.
\<close>

theorem subscribe_without_backend_counterexample:
  "status
     (run [(Created, epoch, Render (no_options\<lparr>backendId := Some 2\<rparr>)),
           (Created, epoch, Render no_options),
           (Created, epoch, SocketEvent 0 EvOpen)]
        (mount Created epoch (no_options\<lparr>backendId := Some 1\<rparr>))) = Connected
   \<and> map sent (sockets
         (run [(Created, epoch, Render (no_options\<lparr>backendId := Some 2\<rparr>)),
               (Created, epoch, Render no_options),
               (Created, epoch, SocketEvent 0 EvOpen)]
            (mount Created epoch (no_options\<lparr>backendId := Some 1\<rparr>)))) = [ [] ]"
  by (simp add: hook_defs no_options_def)


lemma own_props_stringify:
  "(k, v) \<in> set (own_props (JSON_stringify fs)) \<longleftrightarrow> (k, Some v) \<in> set fs"
  by (induction fs) (auto simp: JSON_stringify_def map_filter_def)

lemma get_prop_stringify:
  "distinct (map fst fs) \<Longrightarrow>
   get_prop (JSON_stringify fs) k = (case map_of fs k of Some (Some v) \<Rightarrow> Some v | _ \<Rightarrow> None)"
proof (induction fs)
  case Nil
  then show ?case by (simp add: JSON_stringify_def map_filter_def)
next
  case (Cons a fs)
  obtain k' v' where a: "a = (k', v')" by (cases a) auto
  have ih: "map_of (List.map_filter (\<lambda>(k, v). map_option (Pair k) v) fs) k =
              (case map_of fs k of Some (Some v) \<Rightarrow> Some v | _ \<Rightarrow> None)"
    using Cons by (simp add: JSON_stringify_def)
  have nk: "k = k' \<Longrightarrow> map_of fs k = None"
    using Cons.prems a by (simp add: map_of_eq_None_iff)
  show ?case
    using ih nk by (cases v') (auto simp: JSON_stringify_def a map_filter_simps)
qed

lemma subscribe_message_distinct: "distinct (map fst (subscribe_message opts t))"
  by (simp add: subscribe_message_def)

lemma get_prop_subscribe_frame:
  "get_prop (JSON_stringify (subscribe_message opts t)) k =
     (case map_of (subscribe_message opts t) k of Some (Some v) \<Rightarrow> Some v | _ \<Rightarrow> None)"
  by (rule get_prop_stringify[OF subscribe_message_distinct])

lemma case_option_same: "(case v of None \<Rightarrow> None | Some x \<Rightarrow> Some x) = v"
  by (cases v) auto

text \<open>
  C7. For all options, the property names of the subscribe frame are exactly the names
  of the object literal whose value is not \<open>undefined\<close>, and for each optional field the
  frame holds the caller's value under the field's name if the caller set one and no
  property of that name if the caller left it unset (\<open>get_prop\<close> is \<open>None\<close> exactly when the
  option is \<open>None\<close>): an unset field is left out, not sent as \<open>null\<close>.
\<close>

theorem subscribe_frame_omits_unset:
  "fst ` set (own_props (JSON_stringify (subscribe_message opts t))) =
     {k. \<exists>v. (k, Some v) \<in> set (subscribe_message opts t)}
   \<and> get_prop (JSON_stringify (subscribe_message opts t)) ''type'' = Some (JStr ''subscribe'')
   \<and> get_prop (JSON_stringify (subscribe_message opts t)) ''timestamp'' = Some (JStr (now_iso t))
   \<and> get_prop (JSON_stringify (subscribe_message opts t)) ''backendId'' = map_option JNum (backendId opts)
   \<and> get_prop (JSON_stringify (subscribe_message opts t)) ''start'' = map_option (\<lambda>r. JStr (range_start r)) (range opts)
   \<and> get_prop (JSON_stringify (subscribe_message opts t)) ''end'' = map_option (\<lambda>r. JStr (range_end r)) (range opts)
   \<and> get_prop (JSON_stringify (subscribe_message opts t)) ''minPushIntervalMs'' = map_option JNum (minPushIntervalMs opts)
   \<and> get_prop (JSON_stringify (subscribe_message opts t)) ''includeTrend'' = map_option JBool (includeTrend opts)
   \<and> get_prop (JSON_stringify (subscribe_message opts t)) ''trendMinutes'' = map_option JNum (trendMinutes opts)
   \<and> get_prop (JSON_stringify (subscribe_message opts t)) ''trendBucketMinutes'' = map_option JNum (trendBucketMinutes opts)
   \<and> get_prop (JSON_stringify (subscribe_message opts t)) ''includeDeviceDetails'' = map_option JBool (includeDeviceDetails opts)
   \<and> get_prop (JSON_stringify (subscribe_message opts t)) ''deviceSourceIP'' = map_option JStr (deviceSourceIP opts)
   \<and> get_prop (JSON_stringify (subscribe_message opts t)) ''deviceDetailLimit'' = map_option JNum (deviceDetailLimit opts)
   \<and> get_prop (JSON_stringify (subscribe_message opts t)) ''includeProxyDetails'' = map_option JBool (includeProxyDetails opts)
   \<and> get_prop (JSON_stringify (subscribe_message opts t)) ''proxyChain'' = map_option JStr (proxyChain opts)
   \<and> get_prop (JSON_stringify (subscribe_message opts t)) ''proxyDetailLimit'' = map_option JNum (proxyDetailLimit opts)
   \<and> get_prop (JSON_stringify (subscribe_message opts t)) ''includeRuleDetails'' = map_option JBool (includeRuleDetails opts)
   \<and> get_prop (JSON_stringify (subscribe_message opts t)) ''ruleName'' = map_option JStr (ruleName opts)
   \<and> get_prop (JSON_stringify (subscribe_message opts t)) ''ruleDetailLimit'' = map_option JNum (ruleDetailLimit opts)
   \<and> get_prop (JSON_stringify (subscribe_message opts t)) ''includeRuleChainFlow'' = map_option JBool (includeRuleChainFlow opts)
   \<and> get_prop (JSON_stringify (subscribe_message opts t)) ''includeDomainsPage'' = map_option JBool (includeDomainsPage opts)
   \<and> get_prop (JSON_stringify (subscribe_message opts t)) ''domainsPageOffset'' = map_option JNum (domainsPageOffset opts)
   \<and> get_prop (JSON_stringify (subscribe_message opts t)) ''domainsPageLimit'' = map_option JNum (domainsPageLimit opts)
   \<and> get_prop (JSON_stringify (subscribe_message opts t)) ''domainsPageSortBy'' = map_option JStr (domainsPageSortBy opts)
   \<and> get_prop (JSON_stringify (subscribe_message opts t)) ''domainsPageSortOrder'' = map_option JStr (domainsPageSortOrder opts)
   \<and> get_prop (JSON_stringify (subscribe_message opts t)) ''domainsPageSearch'' = map_option JStr (domainsPageSearch opts)
   \<and> get_prop (JSON_stringify (subscribe_message opts t)) ''includeIPsPage'' = map_option JBool (includeIPsPage opts)
   \<and> get_prop (JSON_stringify (subscribe_message opts t)) ''ipsPageOffset'' = map_option JNum (ipsPageOffset opts)
   \<and> get_prop (JSON_stringify (subscribe_message opts t)) ''ipsPageLimit'' = map_option JNum (ipsPageLimit opts)
   \<and> get_prop (JSON_stringify (subscribe_message opts t)) ''ipsPageSortBy'' = map_option JStr (ipsPageSortBy opts)
   \<and> get_prop (JSON_stringify (subscribe_message opts t)) ''ipsPageSortOrder'' = map_option JStr (ipsPageSortOrder opts)
   \<and> get_prop (JSON_stringify (subscribe_message opts t)) ''ipsPageSearch'' = map_option JStr (ipsPageSearch opts)"
proof -
  have "fst ` set (own_props (JSON_stringify (subscribe_message opts t))) =
          {k. \<exists>v. (k, v) \<in> set (own_props (JSON_stringify (subscribe_message opts t)))}"
    by force
  then have "fst ` set (own_props (JSON_stringify (subscribe_message opts t))) =
          {k. \<exists>v. (k, Some v) \<in> set (subscribe_message opts t)}"
    by (simp only: own_props_stringify)
  then show ?thesis
    by (simp add: get_prop_subscribe_frame) (simp add: subscribe_message_def map_option_case case_option_same)
qed

subsection \<open>Push and pull on the dashboard page\<close>

lemmas dashboard_defs = has_backend_def isWsSummaryTab_def wsEnabled_def wsConnected_def
  wsRealtimeActive_def shouldReducePolling_def wsSummary_countryStats_def hasWsCountries_def
  needsCountries_def summaryQuery_enabled_def countriesQuery_enabled_def

text \<open>
  C1 (as amended). With an active backend, the summary pull query is disabled exactly when
  auto-refresh is on, the active tab is one of the five push tabs and the socket status
  is connected; whether a push payload has arrived plays no part. The countries pull
  query is disabled exactly when the tab does not show countries, or auto-refresh is on,
  the status is connected and the last message the hook holds carries \<open>countryStats\<close>.
  So when the status is not connected or the tab is not a push tab, the summary query is
  enabled, and on the two tabs that show countries the countries query is enabled as soon
  as one of the three conditions fails.
\<close>

theorem pull_suppression_conditions:
  assumes "has_backend d"
  shows "(summaryQuery_enabled d \<longleftrightarrow>
            \<not> (autoRefresh d \<and> isWsSummaryTab d \<and> wsStatus d = Connected))
         \<and> (countriesQuery_enabled d \<longleftrightarrow>
              needsCountries d \<and>
              \<not> (autoRefresh d \<and> wsStatus d = Connected \<and> truthy (wsSummary_countryStats d)))
         \<and> (wsStatus d \<noteq> Connected \<or> \<not> isWsSummaryTab d \<longrightarrow> summaryQuery_enabled d)
         \<and> (needsCountries d \<and>
              (wsStatus d \<noteq> Connected \<or> \<not> isWsSummaryTab d \<or> \<not> truthy (wsSummary_countryStats d))
              \<longrightarrow> countriesQuery_enabled d)"
  using assms by (auto simp: dashboard_defs)

theorem pull_suppression_conditions_witness:
  "has_backend (example_dashboard\<lparr>wsStatus := Connected,
                  wsSummary := Some (JObj [(''countryStats'', JArr [])])\<rparr>)
   \<and> \<not> summaryQuery_enabled (example_dashboard\<lparr>wsStatus := Connected,
                  wsSummary := Some (JObj [(''countryStats'', JArr [])])\<rparr>)
   \<and> \<not> countriesQuery_enabled (example_dashboard\<lparr>wsStatus := Connected,
                  wsSummary := Some (JObj [(''countryStats'', JArr [])])\<rparr>)
   \<and> has_backend example_dashboard
   \<and> summaryQuery_enabled example_dashboard
   \<and> countriesQuery_enabled example_dashboard"
proof -
  let ?d = "example_dashboard\<lparr>wsStatus := Connected,
                  wsSummary := Some (JObj [(''countryStats'', JArr [])])\<rparr>"
  have a: "has_backend ?d" "has_backend example_dashboard"
    by (simp_all add: has_backend_def example_dashboard_def)
  have b: "autoRefresh ?d \<and> isWsSummaryTab ?d \<and> wsStatus ?d = Connected"
    "needsCountries ?d" "truthy (wsSummary_countryStats ?d)"
    "wsStatus example_dashboard \<noteq> Connected" "needsCountries example_dashboard"
    by (simp_all add: dashboard_defs example_dashboard_def)
  show ?thesis
    using pull_suppression_conditions[OF a(1)] pull_suppression_conditions[OF a(2)] a b
    by blast
qed

text \<open>
  C1 as stated fails for the summary view: right after the socket has opened, with no
  message received yet, the page on the overview tab disables the summary pull query.
\<close>

theorem summary_pull_suppressed_before_first_push_counterexample:
  "status (step Created epoch (SocketEvent 0 EvOpen) (mount Created epoch (no_options\<lparr>backendId := Some 1\<rparr>)))
     = Connected
   \<and> lastMessage (step Created epoch (SocketEvent 0 EvOpen) (mount Created epoch (no_options\<lparr>backendId := Some 1\<rparr>)))
     = None
   \<and> isWsSummaryTab example_dashboard
   \<and> \<not> summaryQuery_enabled
         (with_hook
            (step Created epoch (SocketEvent 0 EvOpen) (mount Created epoch (no_options\<lparr>backendId := Some 1\<rparr>)))
            example_dashboard)"
  by (simp add: hook_defs no_options_def dashboard_defs example_dashboard_def with_hook_def)





text \<open>
  The period on the \<open>rules\<close> tab, where push is never live, is the slow one, although
  the comment above the effect speaks of reducing to 30 s on push tabs only. The property
  of the cadence above leaves this tab out.
\<close>

lemma rules_tab_rolling_interval:
  "\<not> wsRealtimeActive (example_dashboard\<lparr>activeTab := ''rules''\<rparr>)
   \<and> rolling_interval (example_dashboard\<lparr>activeTab := ''rules''\<rparr>) = Some 30000"
  by (simp add: example_dashboard_def dashboard_defs rolling_interval_def isRollingTimePreset_def)

lemma map_of_spread2:
  "map_of (spread2 a b) k = (case map_of b k of Some v \<Rightarrow> Some v | None \<Rightarrow> map_of a k)"
  by (simp add: spread2_def merge_conv' map_add_def)

text \<open>
  C6. When a push payload \<open>stats\<close> reaches the page's \<open>onMessage\<close> and the active backend is
  \<open>b\<close> with stable range \<open>R\<close>: the summary entry for \<open>(b, R)\<close> becomes the old entry's
  properties overwritten by those of \<open>stats\<close> (so every property of \<open>stats\<close> is in it); the
  countries entry for \<open>(b, 50, R)\<close> becomes the embedded \<open>countryStats\<close> if the payload has
  one and stays as it was otherwise; likewise the devices entry and \<open>deviceStats\<close>; and
  no other cache entry changes.
\<close>

theorem push_payload_fans_out:
  assumes "activeBackendId d = Some b" and "b \<noteq> 0"
  shows "queryCache (dashboard_onMessage stats d) (getSummaryQueryKey b (stableTimeRange d)) =
           Some (summary_updater stats (queryCache d (getSummaryQueryKey b (stableTimeRange d))))
         \<and> (\<forall>k v. get_prop (JObj (own_props stats)) k = Some v \<longrightarrow>
               get_prop (summary_updater stats (queryCache d (getSummaryQueryKey b (stableTimeRange d)))) k
                 = Some v)
         \<and> queryCache (dashboard_onMessage stats d) (getCountriesQueryKey b 50 (stableTimeRange d)) =
             (if truthy (get_prop stats ''countryStats'') then get_prop stats ''countryStats''
              else queryCache d (getCountriesQueryKey b 50 (stableTimeRange d)))
         \<and> queryCache (dashboard_onMessage stats d) (getDevicesQueryKey b 50 (stableTimeRange d)) =
             (if truthy (get_prop stats ''deviceStats'') then get_prop stats ''deviceStats''
              else queryCache d (getDevicesQueryKey b 50 (stableTimeRange d)))
         \<and> (\<forall>k. k \<noteq> getSummaryQueryKey b (stableTimeRange d)
                \<and> k \<noteq> getCountriesQueryKey b 50 (stableTimeRange d)
                \<and> k \<noteq> getDevicesQueryKey b 50 (stableTimeRange d)
                \<longrightarrow> queryCache (dashboard_onMessage stats d) k = queryCache d k)"
proof -
  have keys: "getSummaryQueryKey b (stableTimeRange d) \<noteq> getCountriesQueryKey b 50 (stableTimeRange d)"
    "getSummaryQueryKey b (stableTimeRange d) \<noteq> getDevicesQueryKey b 50 (stableTimeRange d)"
    "getCountriesQueryKey b 50 (stableTimeRange d) \<noteq> getDevicesQueryKey b 50 (stableTimeRange d)"
    by (simp_all add: getSummaryQueryKey_def getCountriesQueryKey_def getDevicesQueryKey_def)
  have merged: "\<forall>k v. get_prop (JObj (own_props stats)) k = Some v \<longrightarrow>
               get_prop (summary_updater stats (queryCache d (getSummaryQueryKey b (stableTimeRange d)))) k
                 = Some v"
    by (simp add: summary_updater_def map_of_spread2)
  have "queryCache (dashboard_onMessage stats d) (getSummaryQueryKey b (stableTimeRange d)) =
           Some (summary_updater stats (queryCache d (getSummaryQueryKey b (stableTimeRange d))))"
    using assms keys
    by (simp add: dashboard_onMessage_def Let_def setQueryData_def split: option.splits)
  moreover have "queryCache (dashboard_onMessage stats d) (getCountriesQueryKey b 50 (stableTimeRange d)) =
             (if truthy (get_prop stats ''countryStats'') then get_prop stats ''countryStats''
              else queryCache d (getCountriesQueryKey b 50 (stableTimeRange d)))"
    using assms keys keys[symmetric]
    by (simp add: dashboard_onMessage_def Let_def setQueryData_def split: option.splits)
  moreover have "queryCache (dashboard_onMessage stats d) (getDevicesQueryKey b 50 (stableTimeRange d)) =
             (if truthy (get_prop stats ''deviceStats'') then get_prop stats ''deviceStats''
              else queryCache d (getDevicesQueryKey b 50 (stableTimeRange d)))"
    using assms keys keys[symmetric]
    by (simp add: dashboard_onMessage_def Let_def setQueryData_def split: option.splits)
  moreover have "\<forall>k. k \<noteq> getSummaryQueryKey b (stableTimeRange d)
                \<and> k \<noteq> getCountriesQueryKey b 50 (stableTimeRange d)
                \<and> k \<noteq> getDevicesQueryKey b 50 (stableTimeRange d)
                \<longrightarrow> queryCache (dashboard_onMessage stats d) k = queryCache d k"
    using assms
    by (simp add: dashboard_onMessage_def Let_def setQueryData_def split: option.splits)
  ultimately show ?thesis using merged by blast
qed


theorem push_payload_fans_out_witness:
  "activeBackendId example_dashboard = Some 1 \<and> (1::int) \<noteq> 0
   \<and> queryCache
        (dashboard_onMessage
           (JObj [(''totalConnections'', JNum 5), (''countryStats'', JArr [JStr ''US''])])
           example_dashboard)
        (getSummaryQueryKey 1 \<lparr>range_start = ''t0'', range_end = ''t1''\<rparr>) =
       Some (JObj [(''countryStats'', JArr [JStr ''US'']), (''totalConnections'', JNum 5)])
   \<and> queryCache
        (dashboard_onMessage
           (JObj [(''totalConnections'', JNum 5), (''countryStats'', JArr [JStr ''US''])])
           example_dashboard)
        (getCountriesQueryKey 1 50 \<lparr>range_start = ''t0'', range_end = ''t1''\<rparr>) =
       Some (JArr [JStr ''US''])
   \<and> queryCache
        (dashboard_onMessage
           (JObj [(''totalConnections'', JNum 5), (''countryStats'', JArr [JStr ''US''])])
           example_dashboard)
        (getDevicesQueryKey 1 50 \<lparr>range_start = ''t0'', range_end = ''t1''\<rparr>) = None"
proof -
  let ?stats = "JObj [(''totalConnections'', JNum 5), (''countryStats'', JArr [JStr ''US''])]"
  have a: "activeBackendId example_dashboard = Some 1" "(1::int) \<noteq> 0"
    by (simp_all add: example_dashboard_def)
  have r: "stableTimeRange example_dashboard = \<lparr>range_start = ''t0'', range_end = ''t1''\<rparr>"
    "queryCache example_dashboard = Map.empty"
    by (simp_all add: example_dashboard_def)
  have u: "summary_updater ?stats None =
             JObj [(''countryStats'', JArr [JStr ''US'']), (''totalConnections'', JNum 5)]"
    by (simp add: summary_updater_def spread2_def AList.merge_def AList.update.simps)
  have c: "get_prop ?stats ''countryStats'' = Some (JArr [JStr ''US''])"
    "get_prop ?stats ''deviceStats'' = None"
    by simp_all
  show ?thesis
    using push_payload_fans_out[OF a, of ?stats] a
    by (simp add: r u c)
qed

end
